theory Spec2Isabelle
  imports Complex_Main
begin

section \<open>Order fraud protection (lib/security/order)\<close>

text \<open>
  A shallow embedding of the fraud screening module: the statistics queries, the
  threshold checker \<open>makeStatLimitChecker\<close>, the gate \<open>validateStat\<close>, the four
  checks and \<open>orderFraudProtection\<close>.

  JavaScript numbers are modelled as \<open>real\<close> (finite values: the statistics queries
  return no NaN and no infinity), strings as \<open>string\<close> (the text in an encoding that
  keeps the ASCII characters, such as UTF-8), an optional property as an \<open>option\<close>, a
  thrown error or rejected promise as \<open>Inl\<close>. What the module takes
  from outside is a parameter: the configuration, the library functions on strings and
  numbers, the database with the operations of its SQL engine, the table of suspended
  assets, and the order in which concurrent promises settle.
\<close>

subsection \<open>Strings\<close>

text \<open>
  The library functions that the module calls on strings and numbers are taken as they
  are, as parameters: \<open>toLower\<close> is lodash \<open>toLower\<close> (the lowercasing of the
  JavaScript engine, on every letter the engine knows), and \<open>toString\<close> is the
  string that a number is printed as, by lodash \<open>toString\<close>, by \<open>join\<close> and in a
  template string alike.
\<close>

record lodash =
  toLower :: "string \<Rightarrow> string"
  toString :: "real \<Rightarrow> string"

text \<open>\<open>Array.prototype.join\<close> on an array of strings.\<close>

fun join :: "string \<Rightarrow> string list \<Rightarrow> string" where
  "join sep [] = []"
| "join sep [x] = x"
| "join sep (x # y # ys) = x @ sep @ join sep (y # ys)"

text \<open>Truthiness of an optional string: \<open>undefined\<close> and the empty string are falsy.\<close>

fun truthy :: "string option \<Rightarrow> bool" where
  "truthy None = False"
| "truthy (Some s) = (s \<noteq> [])"

subsection \<open>Statistics and limit rules\<close>

record FraudStats =
  errorRate :: real
  numberOfOrders :: real
  paymentMethodRate :: real

text \<open>
  A limit rule as \<open>JSON.parse\<close> returns it, already split as the checker splits it:
  \<open>[interval, ...limits]\<close>. The configured rules are
  \<open>[interval, maxOrders, maxErrorRate, maxPaymentMethodRate]\<close>.
\<close>

type_synonym limitParams = "string \<times> real list"

definition limitRule :: "string \<Rightarrow> real \<Rightarrow> real \<Rightarrow> real \<Rightarrow> limitParams" where
  "limitRule interval maxOrders maxErrorRate maxPaymentMethodRate =
     (interval, [maxOrders, maxErrorRate, maxPaymentMethodRate])"

definition statArray :: "FraudStats \<Rightarrow> real list" where
  "statArray stat = [numberOfOrders stat, errorRate stat, paymentMethodRate stat]"

text \<open>
  \<open>limits.every((limit, index) => limit <= statArray[index])\<close>. An index past the end
  of \<open>statArray\<close> reads \<open>undefined\<close>, and a comparison with \<open>undefined\<close> is false.
\<close>

fun every_limit :: "real list \<Rightarrow> real list \<Rightarrow> bool" where
  "every_limit [] stats = True"
| "every_limit (limit # limits) [] = False"
| "every_limit (limit # limits) (s # stats) = (limit \<le> s \<and> every_limit limits stats)"

definition fail :: "FraudStats \<Rightarrow> limitParams \<Rightarrow> bool" where
  "fail stat limitParams = every_limit (snd limitParams) (statArray stat)"

subsection \<open>Requests, orders and the arguments of a statistics function\<close>

record User =
  user_id :: nat

record creditCardInfo =
  expYear :: real
  expMonth :: real
  brand :: "string option"
  fingerprint :: "string option"
  funding :: "string option"
  country :: "string option"

record paymentMethod =
  name :: string
  creditCardInfo :: "creditCardInfo option"

record guestInfo =
  email :: "string option"

record order =
  guestInfo :: "guestInfo option"
  paymentMethod :: "paymentMethod option"

record Request =
  remoteUser :: "User option"
  ip :: "string option"

text \<open>
  The values that occur in the \<open>args\<close> array of a check: the subject (a user, an email
  or IP string, or \<open>{ name, ...creditCardInfo }\<close>) and the interval strings that the
  checker pushes.
\<close>

datatype arg = UserArg User | StrArg string | CardArg string creditCardInfo

subsection \<open>Errors\<close>

text \<open>
  An error message is kept as the parts the template string is made of, so that no
  number has to be printed: \<open>StatAboveTreshold\<close> is
  \<open>`Stat ${statArray.join()} above treshold ${limitParams.join()}`\<close> and
  \<open>Colon m e\<close> is \<open>`${errorMessage}: ${e.message}`\<close>.
\<close>

datatype message =
    Text string
  | StatAboveTreshold "real list" limitParams
  | Colon string message

datatype error =
    Error message
  | ValidationFailed message "arg list" "limitParams list"

fun message_of :: "error \<Rightarrow> message" where
  "message_of (Error m) = m"
| "message_of (ValidationFailed m args limitParams) = m"

fun is_ValidationFailed :: "error \<Rightarrow> bool" where
  "is_ValidationFailed (ValidationFailed m args limitParams) = True"
| "is_ValidationFailed (Error m) = False"

subsection \<open>The world outside: the suspended assets, and what a call does\<close>

datatype AssetType = USER | CREDIT_CARD | IP | EMAIL_ADDRESS

datatype assetParams = AssetParams (asset_type: AssetType) (asset_fingerprint: string)

text \<open>
  The effects of the module are recorded as events, in the order the calls are made: a
  call of the statistics function with the arguments it was given, a lookup and a
  \<open>create\<close> on the SuspendedAsset model, \<open>logger.warn\<close> and \<open>logger.error\<close>. The
  \<open>debug\<close> output is not recorded. Every operation returns its result, the events it
  caused, and the world it leaves.
\<close>

datatype event =
    Query "arg list"
  | Lookup "assetParams option"
  | Create "assetParams option" message
  | Warn message
  | LogError error

text \<open>
  The world is the SuspendedAsset table, with \<open>write_fault\<close> the failure, if any, that
  a write to the table runs into.
\<close>

record world =
  store :: "(assetParams \<times> message) list"
  write_fault :: "error option"

type_synonym 'a effect = "world \<Rightarrow> 'a \<times> event list \<times> world"

definition isSuspended :: "assetParams \<Rightarrow> world \<Rightarrow> bool" where
  "isSuspended a w = (a \<in> set (map fst (store w)))"

text \<open>
  Modelled from the spec: the model class \<open>SuspendedAsset\<close> (models/SuspendedAsset) is
  not part of the sources. The spec gives the store as a set of records keyed by asset
  type and fingerprint, with \<open>exists(type, fingerprint)\<close> and an idempotent
  \<open>create(type, fingerprint, reason)\<close>; the gate must "verify the asset is not already
  suspended (consult SuspendedAssetStore) and abort that check immediately with a
  rejection if so". A record has both a type and a fingerprint, so a call without asset
  parameters finds nothing to look up or to write, and is rejected.
\<close>

definition assertAssetIsNotSuspended :: "assetParams option \<Rightarrow> (error + unit) effect" where
  "assertAssetIsNotSuspended a w =
     (case a of
        None \<Rightarrow> (Inl (Error (Text ''no asset'')), [Lookup a], w)
      | Some x \<Rightarrow>
          if isSuspended x w then (Inl (Error (Text ''Asset is suspended'')), [Lookup a], w)
          else (Inr (), [Lookup a], w))"

text \<open>
  Modelled from the spec: \<open>SuspendedAsset.create\<close>, see above. The insert is
  idempotent (a second record for the same type and fingerprint is a no-op), and a write
  that hits \<open>write_fault\<close> rejects and leaves the store as it was.
\<close>

definition SuspendedAsset_create :: "assetParams option \<Rightarrow> message \<Rightarrow> (error + unit) effect" where
  "SuspendedAsset_create a reason w =
     (case write_fault w of
        Some e \<Rightarrow> (Inl e, [Create a reason], w)
      | None \<Rightarrow>
         (case a of
            None \<Rightarrow> (Inl (Error (Text ''no asset'')), [Create a reason], w)
          | Some x \<Rightarrow>
              (Inr (), [Create a reason],
               if isSuspended x w then w else w\<lparr>store := store w @ [(x, reason)]\<rparr>)))"

subsection \<open>The statistics queries\<close>

text \<open>
  One row of \<open>"Orders" o LEFT JOIN "PaymentMethods" pm ON pm."id" = o."PaymentMethodId"\<close>
  (and, for the email query, \<open>LEFT JOIN "Users" u ON u."id" = o."CreatedByUserId"\<close>):
  both joins are on a primary key, so every order gives one row, with NULL (\<open>None\<close>)
  in the joined columns when there is no such payment method or user. The columns are
  those the queries read.
\<close>

record PaymentMethods_row =
  pm_type :: "string option"
  pm_name :: "string option"
  pm_expYear :: "string option"
  pm_expMonth :: "string option"
  pm_country :: "string option"

record Orders_row =
  status :: string
  CreatedByUserId :: "nat option"
  deletedAt :: "nat option"
  createdAt :: nat
  reqIp :: "string option"
  pm :: "PaymentMethods_row option"
  u_email :: "string option"

text \<open>
  The database: the joined rows, and the operations of the SQL engine that the WHERE
  clauses use and that are taken as they are: \<open>LIKE\<close> (text, then pattern),
  \<open>LOWER\<close>, and \<open>o."createdAt" >= NOW() - INTERVAL :interval\<close> (interval, then
  creation time).
\<close>

record database =
  Orders :: "Orders_row list"
  LIKE :: "string \<Rightarrow> string \<Rightarrow> bool"
  LOWER :: "string \<Rightarrow> string"
  since :: "string \<Rightarrow> nat \<Rightarrow> bool"

text \<open>SQL aggregates and NULL handling, as far as \<open>BASE_STATS_QUERY\<close> uses them.\<close>

definition AVG :: "real list \<Rightarrow> real option" where
  "AVG xs = (if xs = [] then None else Some (sum_list xs / real (length xs)))"

definition COALESCE :: "real option \<Rightarrow> real \<Rightarrow> real" where
  "COALESCE x d = (case x of None \<Rightarrow> d | Some v \<Rightarrow> v)"

definition NULLIF :: "nat \<Rightarrow> nat \<Rightarrow> nat option" where
  "NULLIF a b = (if a = b then None else Some a)"

text \<open>Division: NULL when the divisor is NULL, an error when the divisor is zero.\<close>

definition sql_div :: "real \<Rightarrow> nat option \<Rightarrow> error + real option" where
  "sql_div a b =
     (case b of
        None \<Rightarrow> Inr None
      | Some n \<Rightarrow> if n = 0 then Inl (Error (Text ''division by zero''))
                  else Inr (Some (a / real n)))"

definition ROUND :: "real \<Rightarrow> nat \<Rightarrow> real" where
  "ROUND x d = real_of_int (round (x * 10 ^ d)) / 10 ^ d"

text \<open>\<open>CONCAT\<close> reads a NULL argument as the empty string.\<close>

definition CONCAT :: "string option \<Rightarrow> string option \<Rightarrow> string" where
  "CONCAT a b = (case a of None \<Rightarrow> [] | Some x \<Rightarrow> x) @ (case b of None \<Rightarrow> [] | Some y \<Rightarrow> y)"

definition pm_col :: "(PaymentMethods_row \<Rightarrow> string option) \<Rightarrow> Orders_row \<Rightarrow> string option" where
  "pm_col col o_row = (case pm o_row of None \<Rightarrow> None | Some p \<Rightarrow> col p)"

text \<open>The SELECT list of \<open>BASE_STATS_QUERY\<close>, over the rows that the WHERE clause keeps.\<close>

definition BASE_STATS_QUERY :: "Orders_row list \<Rightarrow> error + FraudStats" where
  "BASE_STATS_QUERY rows =
     (case sql_div (real (length (remdups (map (\<lambda>r. CONCAT (pm_col pm_name r) (pm_col pm_expYear r)) rows))))
                   (NULLIF (length rows) 0) of
        Inl e \<Rightarrow> Inl e
      | Inr rate \<Rightarrow>
          Inr \<lparr> errorRate =
                  ROUND (COALESCE (AVG (map (\<lambda>r. if status r = ''ERROR'' then 1 else 0) rows)) 0) 5,
                numberOfOrders = real (length rows),
                paymentMethodRate = COALESCE rate 0 \<rparr>)"

text \<open>
  \<open>ifStr(interval, 'AND o."createdAt" >= NOW() - INTERVAL :interval')\<close>: the clause is
  there only for a truthy interval.
\<close>

definition interval_clause :: "database \<Rightarrow> string option \<Rightarrow> Orders_row \<Rightarrow> bool" where
  "interval_clause db interval r =
     (case interval of
        None \<Rightarrow> True
      | Some i \<Rightarrow> if i = [] then True else since db i (createdAt r))"

definition user_rows :: "database \<Rightarrow> User \<Rightarrow> string option \<Rightarrow> Orders_row list" where
  "user_rows db user interval =
     filter (\<lambda>r. CreatedByUserId r = Some (user_id user)
               \<and> deletedAt r = None
               \<and> pm_col pm_type r = Some ''creditcard''
               \<and> interval_clause db interval r) (Orders db)"

definition email_rows :: "database \<Rightarrow> string \<Rightarrow> string option \<Rightarrow> Orders_row list" where
  "email_rows db email_address interval =
     filter (\<lambda>r. (case u_email r of None \<Rightarrow> False
                                | Some e \<Rightarrow> LIKE db (LOWER db e) (LOWER db email_address))
               \<and> deletedAt r = None
               \<and> pm_col pm_type r = Some ''creditcard''
               \<and> interval_clause db interval r) (Orders db)"

definition ip_rows :: "database \<Rightarrow> string \<Rightarrow> string option \<Rightarrow> Orders_row list" where
  "ip_rows db ip_address interval =
     filter (\<lambda>r. (case reqIp r of None \<Rightarrow> False | Some a \<Rightarrow> LIKE db a ip_address)
               \<and> deletedAt r = None
               \<and> pm_col pm_type r = Some ''creditcard''
               \<and> interval_clause db interval r) (Orders db)"

text \<open>
  The card query, with the replacements \<open>:name\<close>, \<open>:expYear\<close>, \<open>:expMonth\<close> and
  \<open>:country\<close> as \<open>getCreditCardStats\<close> passes them.
\<close>

definition card_rows ::
  "database \<Rightarrow> string \<Rightarrow> string \<Rightarrow> string \<Rightarrow> string \<Rightarrow> string option \<Rightarrow> Orders_row list" where
  "card_rows db card_name year month card_country interval =
     filter (\<lambda>r. pm_col pm_type r = Some ''creditcard''
               \<and> deletedAt r = None
               \<and> pm_col pm_name r = Some card_name
               \<and> pm_col pm_expYear r = Some year
               \<and> pm_col pm_expMonth r = Some month
               \<and> pm_col pm_country r = Some card_country
               \<and> interval_clause db interval r) (Orders db)"

text \<open>
  The four entry points, called as the checker calls them, \<open>statFn(...args)\<close>: the
  first argument is the subject, the second the interval (\<open>undefined\<close> when the array
  has no second element), further arguments are ignored. A call with a subject of
  another kind, which no check makes, is a rejection here.

  Every replacement that the query text names must have a value: for a card without
  \<open>country\<close> the replacement \<open>:country\<close> is \<open>undefined\<close>, and \<open>sequelize.query\<close>
  rejects the call before any query is sent (the message below is the one of Sequelize,
  without its quotation marks). The replacement \<open>:interval\<close> is named only when the
  interval is truthy, and the other replacements always have a value.
\<close>

fun interval_param :: "arg list \<Rightarrow> string option" where
  "interval_param (StrArg i # rest) = Some i"
| "interval_param rest = None"

fun getUserStats :: "database \<Rightarrow> arg list \<Rightarrow> error + FraudStats" where
  "getUserStats db (UserArg user # rest) = BASE_STATS_QUERY (user_rows db user (interval_param rest))"
| "getUserStats db args = Inl (Error (Text ''TypeError''))"

fun getEmailStats :: "database \<Rightarrow> arg list \<Rightarrow> error + FraudStats" where
  "getEmailStats db (StrArg e # rest) = BASE_STATS_QUERY (email_rows db e (interval_param rest))"
| "getEmailStats db args = Inl (Error (Text ''TypeError''))"

fun getIpStats :: "database \<Rightarrow> arg list \<Rightarrow> error + FraudStats" where
  "getIpStats db (StrArg a # rest) = BASE_STATS_QUERY (ip_rows db a (interval_param rest))"
| "getIpStats db args = Inl (Error (Text ''TypeError''))"

fun getCreditCardStats :: "lodash \<Rightarrow> database \<Rightarrow> arg list \<Rightarrow> error + FraudStats" where
  "getCreditCardStats js db (CardArg n cc # rest) =
     (case country cc of
        None \<Rightarrow> Inl (Error (Text ''Named parameter :country has no value in the given object.''))
      | Some card_country \<Rightarrow>
          BASE_STATS_QUERY
            (card_rows db n (toString js (expYear cc)) (toString js (expMonth cc)) card_country
               (interval_param rest)))"
| "getCreditCardStats js db args = Inl (Error (Text ''TypeError''))"

subsection \<open>The threshold checker\<close>

type_synonym statFn = "arg list \<Rightarrow> error + FraudStats"

text \<open>
  \<open>makeStatLimitChecker(statFn, args)(limitParams)\<close>. The array \<open>args\<close> is shared by
  all the calls of one check and \<open>args.push(interval)\<close> changes it, so it is passed in
  and returned. The call \<open>statFn(...args)\<close> is made before the first \<open>await\<close>, that
  is while \<open>limitParams.map(assertLimit)\<close> runs.
\<close>

definition makeStatLimitChecker ::
  "statFn \<Rightarrow> arg list \<Rightarrow> limitParams \<Rightarrow> (error + unit) \<times> arg list \<times> event list" where
  "makeStatLimitChecker statFn args limitParams =
     (let interval = fst limitParams;
          args1 = args @ [StrArg interval]
      in case statFn args1 of
           Inl e \<Rightarrow> (Inl e, args1, [Query args1])
         | Inr stat \<Rightarrow>
             if fail stat limitParams
             then (Inl (Error (StatAboveTreshold (statArray stat) limitParams)), args1, [Query args1])
             else (Inr (), args1, [Query args1]))"

text \<open>\<open>limitParams.map(assertLimit)\<close>: the promises, in the order of the rules.\<close>

fun map_assertLimit ::
  "statFn \<Rightarrow> arg list \<Rightarrow> limitParams list \<Rightarrow> (error + unit) list \<times> arg list \<times> event list" where
  "map_assertLimit statFn args [] = ([], args, [])"
| "map_assertLimit statFn args (lp # lps) =
     (case makeStatLimitChecker statFn args lp of
        (r, args1, evs1) \<Rightarrow>
          (case map_assertLimit statFn args1 lps of
             (rs, args2, evs2) \<Rightarrow> (r # rs, args2, evs1 @ evs2)))"

text \<open>
  \<open>Promise.all\<close> resolves when all the promises have resolved, and rejects with the
  rejection that settles first. The order in which the promises settle is not fixed by
  the module: it is the parameter \<open>settle\<close>, a list of positions, earliest first; the
  promises that it does not name settle after those it names, in the order of the array.
\<close>

definition Promise_all :: "nat list \<Rightarrow> (error + unit) list \<Rightarrow> error + unit" where
  "Promise_all settle rs =
     (case filter (\<lambda>i. i < length rs \<and> isl (rs ! i)) (settle @ [0..<length rs]) of
        [] \<Rightarrow> Inr ()
      | i # later \<Rightarrow> rs ! i)"

text \<open>The body of the \<open>try\<close> block: \<open>await Promise.all(limitParams.map(assertLimit))\<close>.\<close>

definition assertLimits ::
  "nat list \<Rightarrow> statFn \<Rightarrow> arg list \<Rightarrow> limitParams list
     \<Rightarrow> (error + unit) \<times> arg list \<times> event list" where
  "assertLimits settle statFn args limitParams =
     (case map_assertLimit statFn args limitParams of
        (rs, args1, evs) \<Rightarrow> (Promise_all settle rs, args1, evs))"

subsection \<open>The gate\<close>

text \<open>
  What a call of a callback (\<open>onFail\<close>, \<open>preCheck\<close>) ends in: it returns a promise,
  with the way the promise settles; it returns a falsy value, which \<open>||\<close> replaces by
  the default action; or it throws before it returns. Both callbacks are declared to
  return \<open>Promise<void>\<close>; the falsy value is there because the code branches on it.
  A callback may change the world and cause events. A truthy value that is no promise
  is not modelled.
\<close>

datatype returned = Falsy | Promise "error + unit" | Throws error

type_synonym callback = "returned effect"

record ValidateStatOptions =
  onFail :: "(error \<Rightarrow> callback) option"
  preCheck :: "callback option"
  assetParams :: "assetParams option"

text \<open>
  The configuration: \<open>config.fraud.enforceSuspendedAsset\<close> after \<open>parseToBoolean\<close>, and
  the rule lists \<open>config.fraud.order.*\<close> after \<open>JSON.parse\<close>.
\<close>

record config =
  enforceSuspendedAsset :: bool
  order_user :: "limitParams list"
  order_card :: "limitParams list"
  order_ip :: "limitParams list"
  order_email :: "limitParams list"

definition ENFORCE_SUSPENDED_ASSET :: "config \<Rightarrow> bool" where
  "ENFORCE_SUSPENDED_ASSET cfg = (enforceSuspendedAsset cfg = True)"

text \<open>
  \<open>options.preCheck?.() || SuspendedAsset.assertAssetIsNotSuspended(options.assetParams)\<close>,
  awaited, under its guard. A \<open>preCheck\<close> that throws and one whose promise rejects
  end the same way: \<open>validateStat\<close> is an \<open>async\<close> function, and nothing catches here.
\<close>

definition runPreCheck :: "config \<Rightarrow> ValidateStatOptions \<Rightarrow> (error + unit) effect" where
  "runPreCheck cfg options w =
     (if ENFORCE_SUSPENDED_ASSET cfg \<and> (assetParams options \<noteq> None \<or> preCheck options \<noteq> None)
      then
        (case (case preCheck options of None \<Rightarrow> (Falsy, [], w) | Some p \<Rightarrow> p w) of
           (Promise r, evs, w1) \<Rightarrow> (r, evs, w1)
         | (Throws thrown, evs, w1) \<Rightarrow> (Inl thrown, evs, w1)
         | (Falsy, evs, w1) \<Rightarrow>
             (case assertAssetIsNotSuspended (assetParams options) w1 of
                (r, evs1, w2) \<Rightarrow> (r, evs @ evs1, w2)))
      else (Inr (), [], w))"

text \<open>
  \<open>options.onFail?.(error) || SuspendedAsset.create({ ...options.assetParams, reason:
  error.message })\<close>: the value of this expression is the promise that the \<open>catch\<close>
  block awaits, unless the handler throws, and then there is no value.
\<close>

definition runOnFail :: "ValidateStatOptions \<Rightarrow> error \<Rightarrow> returned effect" where
  "runOnFail options error w =
     (case (case onFail options of None \<Rightarrow> (Falsy, [], w) | Some h \<Rightarrow> h error w) of
        (Promise r, evs, w1) \<Rightarrow> (Promise r, evs, w1)
      | (Throws thrown, evs, w1) \<Rightarrow> (Throws thrown, evs, w1)
      | (Falsy, evs, w1) \<Rightarrow>
          (case SuspendedAsset_create (assetParams options) (message_of error) w1 of
             (r, evs1, w2) \<Rightarrow> (Promise r, evs @ evs1, w2)))"

text \<open>
  The \<open>catch\<close> block, entered with the rejection \<open>e\<close> of \<open>Promise.all\<close>.
  \<open>.catch(logger.error)\<close> is called on the promise above: it logs a rejection of that
  promise and resolves. A handler that throws leaves the block at once, with what it
  threw: nothing is logged by \<open>logger.error\<close>, and the test of
  \<open>ENFORCE_SUSPENDED_ASSET\<close> is not reached. (The expression above never has a falsy
  value; \<open>.catch\<close> on one would be a TypeError.)
\<close>

definition catchBlock ::
  "config \<Rightarrow> arg list \<Rightarrow> limitParams list \<Rightarrow> string \<Rightarrow> ValidateStatOptions \<Rightarrow> error
     \<Rightarrow> (error + unit) effect" where
  "catchBlock cfg args limitParams errorMessage options e w =
     (let error = ValidationFailed (Colon errorMessage (message_of e)) args limitParams
      in case runOnFail options error w of
           (Promise settled, evs, w1) \<Rightarrow>
             (if ENFORCE_SUSPENDED_ASSET cfg then Inl error else Inr (),
              [Warn (message_of error)] @ evs
                @ (case settled of Inl write_error \<Rightarrow> [LogError write_error] | Inr u \<Rightarrow> []),
              w1)
         | (Throws thrown, evs, w1) \<Rightarrow> (Inl thrown, [Warn (message_of error)] @ evs, w1)
         | (Falsy, evs, w1) \<Rightarrow>
             (Inl (Error (Text ''TypeError'')), [Warn (message_of error)] @ evs, w1))"

text \<open>
  \<open>validateStat\<close>, with \<open>settle\<close> the order in which the promises of the rules
  settle.
\<close>

definition validateStat ::
  "config \<Rightarrow> nat list \<Rightarrow> statFn \<Rightarrow> arg list \<Rightarrow> limitParams list \<Rightarrow> string
     \<Rightarrow> ValidateStatOptions \<Rightarrow> (error + unit) effect" where
  "validateStat cfg settle statFn args limitParams errorMessage options w =
     (case runPreCheck cfg options w of
        (Inl e, evs, w1) \<Rightarrow> (Inl e, evs, w1)
      | (Inr u, evs, w1) \<Rightarrow>
          (case assertLimits settle statFn args limitParams of
             (Inr u, args1, evs1) \<Rightarrow> (Inr (), evs @ evs1, w1)
           | (Inl e, args1, evs1) \<Rightarrow>
               (case catchBlock cfg args1 limitParams errorMessage options e w1 of
                  (r, evs2, w2) \<Rightarrow> (r, evs @ evs1 @ evs2, w2))))"

subsection \<open>The four checks and the entry point\<close>

text \<open>
  Each check takes, besides its subject, the configuration, the library functions it
  calls, the database, and the order \<open>settle\<close> in which the promises of its rules
  settle.
\<close>

definition userAssetParams :: "lodash \<Rightarrow> User \<Rightarrow> assetParams" where
  "userAssetParams js user = AssetParams USER (toString js (real (user_id user)))"

definition checkUser :: "config \<Rightarrow> lodash \<Rightarrow> database \<Rightarrow> nat list \<Rightarrow> User \<Rightarrow> (error + unit) effect" where
  "checkUser cfg js db settle user w =
     validateStat cfg settle (getUserStats db) [UserArg user] (order_user cfg)
       (''Fraud: User #'' @ toString js (real (user_id user)) @ '' failed fraud protection'')
       \<lparr> onFail = Some (\<lambda>error w'.
             case SuspendedAsset_create (Some (userAssetParams js user)) (message_of error) w' of
               (r, evs, w'') \<Rightarrow> (Promise r, evs, w'')),
         preCheck = None,
         assetParams = Some (userAssetParams js user) \<rparr> w"

text \<open>
  \<open>[name, ...Object.values(pick(creditCardInfo, ['brand', 'expMonth', 'expYear',
  'funding']))]\<close>: \<open>pick\<close> keeps the properties that the object has, in the order of
  the list of names, so a card without \<open>brand\<close> or \<open>funding\<close> gives a shorter array.
\<close>

definition card_fields :: "lodash \<Rightarrow> string \<Rightarrow> creditCardInfo \<Rightarrow> string list" where
  "card_fields js card_name cc =
     card_name #
       (case brand cc of None \<Rightarrow> [] | Some b \<Rightarrow> [b])
       @ [toString js (expMonth cc), toString js (expYear cc)]
       @ (case funding cc of None \<Rightarrow> [] | Some f \<Rightarrow> [f])"

text \<open>The fingerprint of a card: the token when there is a truthy one, else the join.\<close>

definition cardFingerprint :: "lodash \<Rightarrow> string \<Rightarrow> creditCardInfo \<Rightarrow> string" where
  "cardFingerprint js card_name cc =
     (if truthy (fingerprint cc) then the (fingerprint cc)
      else join ''-'' (card_fields js card_name cc))"

definition cardAssetParams :: "lodash \<Rightarrow> string \<Rightarrow> creditCardInfo \<Rightarrow> assetParams" where
  "cardAssetParams js card_name cc = AssetParams CREDIT_CARD (cardFingerprint js card_name cc)"

text \<open>
  A payment method without \<open>creditCardInfo\<close>: reading \<open>creditCardInfo.fingerprint\<close> is
  a TypeError, and the \<open>async\<close> function rejects with it.
\<close>

definition checkCreditCard ::
  "config \<Rightarrow> lodash \<Rightarrow> database \<Rightarrow> nat list \<Rightarrow> paymentMethod \<Rightarrow> (error + unit) effect" where
  "checkCreditCard cfg js db settle payment w =
     (case creditCardInfo payment of
        None \<Rightarrow> (Inl (Error (Text ''TypeError'')), [], w)
      | Some cc \<Rightarrow>
          validateStat cfg settle (getCreditCardStats js db) [CardArg (name payment) cc] (order_card cfg)
            (''Fraud: Credit Card '' @ cardFingerprint js (name payment) cc @ '' failed fraud protection'')
            \<lparr> onFail = None, preCheck = None,
              assetParams = Some (cardAssetParams js (name payment) cc) \<rparr> w)"

definition ipAssetParams :: "string \<Rightarrow> assetParams" where
  "ipAssetParams ip_address = AssetParams IP ip_address"

definition checkIP :: "config \<Rightarrow> database \<Rightarrow> nat list \<Rightarrow> string \<Rightarrow> (error + unit) effect" where
  "checkIP cfg db settle ip_address w =
     validateStat cfg settle (getIpStats db) [StrArg ip_address] (order_ip cfg)
       (''Fraud: IP '' @ ip_address @ '' failed fraud protection'')
       \<lparr> onFail = None, preCheck = None, assetParams = Some (ipAssetParams ip_address) \<rparr> w"

definition emailAssetParams :: "lodash \<Rightarrow> string \<Rightarrow> assetParams" where
  "emailAssetParams js email_address = AssetParams EMAIL_ADDRESS (toLower js email_address)"

definition checkEmail :: "config \<Rightarrow> lodash \<Rightarrow> database \<Rightarrow> nat list \<Rightarrow> string \<Rightarrow> (error + unit) effect" where
  "checkEmail cfg js db settle email_address w =
     validateStat cfg settle (getEmailStats db) [StrArg email_address] (order_email cfg)
       (''Fraud: email '' @ email_address @ '' failed fraud protection'')
       \<lparr> onFail = None, preCheck = None,
         assetParams = Some (emailAssetParams js email_address) \<rparr> w"

text \<open>The checks that \<open>orderFraudProtection\<close> pushes on \<open>checks\<close>, in that order.\<close>

datatype check = CheckIP string | CheckCreditCard paymentMethod | CheckUser User | CheckEmail string

definition checks :: "Request \<Rightarrow> order \<Rightarrow> check list" where
  "checks req ord =
     (if truthy (ip req) then [CheckIP (the (ip req))] else [])
     @ (case paymentMethod ord of
          None \<Rightarrow> []
        | Some payment \<Rightarrow> if creditCardInfo payment \<noteq> None then [CheckCreditCard payment] else [])
     @ (case remoteUser req of
          Some user \<Rightarrow> [CheckUser user]
        | None \<Rightarrow>
            (case guestInfo ord of
               None \<Rightarrow> []
             | Some guest \<Rightarrow> if truthy (email guest) then [CheckEmail (the (email guest))] else []))"

text \<open>The asset that a check looks up and suspends.\<close>

fun check_asset :: "lodash \<Rightarrow> check \<Rightarrow> assetParams option" where
  "check_asset js (CheckIP a) = Some (ipAssetParams a)"
| "check_asset js (CheckCreditCard payment) =
     (case creditCardInfo payment of None \<Rightarrow> None
                                   | Some cc \<Rightarrow> Some (cardAssetParams js (name payment) cc))"
| "check_asset js (CheckUser user) = Some (userAssetParams js user)"
| "check_asset js (CheckEmail e) = Some (emailAssetParams js e)"

text \<open>
  The timing of one call of \<open>orderFraudProtection\<close>: for each check the order in which
  the promises of its rules settle, and the order in which the checks settle.
\<close>

record timing =
  rules_settle :: "check \<Rightarrow> nat list"
  checks_settle :: "nat list"

fun run_check :: "config \<Rightarrow> lodash \<Rightarrow> database \<Rightarrow> timing \<Rightarrow> check \<Rightarrow> (error + unit) effect" where
  "run_check cfg js db tm (CheckIP a) w = checkIP cfg db (rules_settle tm (CheckIP a)) a w"
| "run_check cfg js db tm (CheckCreditCard payment) w =
     checkCreditCard cfg js db (rules_settle tm (CheckCreditCard payment)) payment w"
| "run_check cfg js db tm (CheckUser user) w =
     checkUser cfg js db (rules_settle tm (CheckUser user)) user w"
| "run_check cfg js db tm (CheckEmail e) w = checkEmail cfg js db (rules_settle tm (CheckEmail e)) e w"

text \<open>
  The checks are started in the order they were pushed and run concurrently: their
  steps are interleaved, in an order that the module does not fix. A check reads and
  writes no record but that of its own asset, and the checks of one order have assets
  of different types, so no step of a check changes what another check reads. Here the
  checks take their turns in the order they were pushed; the events are kept apart,
  one list for each check, since the order of the events of different checks is not
  fixed. Every check runs, whatever the others did.
\<close>

fun run_checks ::
  "config \<Rightarrow> lodash \<Rightarrow> database \<Rightarrow> timing \<Rightarrow> check list \<Rightarrow> world
     \<Rightarrow> (error + unit) list \<times> event list list \<times> world" where
  "run_checks cfg js db tm [] w = ([], [], w)"
| "run_checks cfg js db tm (c # cs) w =
     (case run_check cfg js db tm c w of
        (r, evs, w1) \<Rightarrow>
          (case run_checks cfg js db tm cs w1 of (rs, evss, w2) \<Rightarrow> (r # rs, evs # evss, w2)))"

text \<open>
  \<open>await Promise.all(checks)\<close>: the result, the events of each check, and the world
  once every check has finished.
\<close>

definition orderFraudProtection ::
  "config \<Rightarrow> lodash \<Rightarrow> database \<Rightarrow> timing \<Rightarrow> Request \<Rightarrow> order \<Rightarrow> world
     \<Rightarrow> (error + unit) \<times> event list list \<times> world" where
  "orderFraudProtection cfg js db tm req ord w =
     (case run_checks cfg js db tm (checks req ord) w of
        (rs, evss, w1) \<Rightarrow> (Promise_all (checks_settle tm) rs, evss, w1))"

subsection \<open>The calls of a check\<close>

text \<open>
  The array \<open>args\<close> as the call for rule \<open>i\<close> passes it to the statistics function:
  the intervals of the rules \<open>0..i\<close> have been pushed on it. \<open>queries\<close> are the
  calls of one check, in order.
\<close>

definition args_at :: "arg list \<Rightarrow> limitParams list \<Rightarrow> nat \<Rightarrow> arg list" where
  "args_at args rules i = args @ map (\<lambda>r. StrArg (fst r)) (take (Suc i) rules)"

definition queries :: "arg list \<Rightarrow> limitParams list \<Rightarrow> event list" where
  "queries args rules = map (\<lambda>i. Query (args_at args rules i)) [0..<length rules]"

text \<open>The interval that a statistics function reads from its arguments in a call.\<close>

fun query_interval :: "event \<Rightarrow> string option" where
  "query_interval (Query (subject # rest)) = interval_param rest"
| "query_interval ev = None"

text \<open>How the promise made for rule \<open>i\<close> of a check settles.\<close>

definition rule_outcome :: "statFn \<Rightarrow> arg list \<Rightarrow> limitParams list \<Rightarrow> nat \<Rightarrow> error + unit" where
  "rule_outcome statFn args rules i =
     (case statFn (args_at args rules i) of
        Inl e \<Rightarrow> Inl e
      | Inr stat \<Rightarrow>
          if fail stat (rules ! i)
          then Inl (Error (StatAboveTreshold (statArray stat) (rules ! i)))
          else Inr ())"

text \<open>
  The statistics of a check violate a rule: the call made for some rule of the list
  returns statistics, and they violate that rule.
\<close>

definition violated :: "statFn \<Rightarrow> arg list \<Rightarrow> limitParams list \<Rightarrow> bool" where
  "violated statFn args rules =
     list_ex (\<lambda>i. case statFn (args_at args rules i) of
                    Inl e \<Rightarrow> False
                  | Inr stat \<Rightarrow> fail stat (rules ! i)) [0..<length rules]"

text \<open>Options whose failure handler, if there is one, returns whenever it is called.\<close>

fun has_thrown :: "returned \<Rightarrow> bool" where
  "has_thrown (Throws thrown) = True"
| "has_thrown r = False"

definition onFail_returns :: "ValidateStatOptions \<Rightarrow> bool" where
  "onFail_returns options =
     (case onFail options of
        None \<Rightarrow> True
      | Some h \<Rightarrow> (\<forall>error w. \<not> has_thrown (fst (h error w))))"

subsection \<open>ASCII text and whole numbers\<close>

text \<open>
  Lowercasing on ASCII text, as every JavaScript engine does it: the letters \<open>A\<close> to
  \<open>Z\<close> are mapped to \<open>a\<close> to \<open>z\<close>, every other character is left as it is.
  \<open>swap_case\<close> is the same letter in the other case, and two texts are
  \<open>same_up_to_case\<close> when they differ only in the case of such letters.
\<close>

definition ascii_lower :: "char \<Rightarrow> char" where
  "ascii_lower c =
     (if 65 \<le> (of_char c :: nat) \<and> (of_char c :: nat) \<le> 90
      then char_of ((of_char c :: nat) + 32) else c)"





text \<open>The decimal digits of a whole number, with a sign when it is negative.\<close>

definition digit_char :: "nat \<Rightarrow> char" where
  "digit_char d = char_of (48 + d)"

fun digits :: "nat \<Rightarrow> string" where
  "digits n = (if n < 10 then [digit_char n] else digits (n div 10) @ [digit_char (n mod 10)])"

declare digits.simps [simp del]

definition decimal :: "int \<Rightarrow> string" where
  "decimal i = (if i < 0 then CHR ''-'' # digits (nat (- i)) else digits (nat i))"

subsection \<open>Example inputs\<close>

text \<open>
  Library functions for the examples: lowercasing of ASCII text, and the decimal digits
  of the whole part of a number (the examples print whole numbers only).
\<close>

definition example_js :: lodash where
  "example_js = \<lparr> toLower = map ascii_lower, toString = (\<lambda>x. decimal \<lfloor>x\<rfloor>) \<rparr>"

text \<open>Promises that settle in the order they were made.\<close>

definition in_order :: timing where
  "in_order = \<lparr> rules_settle = (\<lambda>c. []), checks_settle = [] \<rparr>"

text \<open>
  The statistics of the spec's concrete scenario, a statistics function that returns
  them and one whose call is rejected, a configuration with two rules per subject, a
  database without orders, and worlds with no and with one suspended asset.
\<close>

definition example_stats :: FraudStats where
  "example_stats = \<lparr> errorRate = 0.5, numberOfOrders = 10, paymentMethodRate = 0.5 \<rparr>"

definition empty_world :: world where
  "empty_world = \<lparr> store = [], write_fault = None \<rparr>"

definition example_statFn :: statFn where
  "example_statFn args = Inr example_stats"

definition rejecting_statFn :: statFn where
  "rejecting_statFn args = Inl (Error (Text ''connection refused''))"

definition example_config :: config where
  "example_config =
     \<lparr> enforceSuspendedAsset = False,
       order_user = [limitRule ''1 month'' 5 0.8 0.2, limitRule ''1 week'' 5 0.8 0.2],
       order_card = [limitRule ''1 month'' 5 0.8 0.2, limitRule ''1 week'' 5 0.8 0.2],
       order_ip = [limitRule ''1 month'' 5 0.8 0.2, limitRule ''1 week'' 5 0.8 0.2],
       order_email = [limitRule ''1 month'' 5 0.8 0.2, limitRule ''1 week'' 5 0.8 0.2] \<rparr>"


definition enforcing_config :: config where
  "enforcing_config = example_config \<lparr> enforceSuspendedAsset := True \<rparr>"

definition sql_equals :: "string \<Rightarrow> string \<Rightarrow> bool" where
  "sql_equals text pattern = (text = pattern)"

definition always_since :: "string \<Rightarrow> nat \<Rightarrow> bool" where
  "always_since interval t = True"

definition empty_database :: database where
  "empty_database =
     \<lparr> Orders = [], LIKE = sql_equals, LOWER = map ascii_lower, since = always_since \<rparr>"

definition suspended_world :: world where
  "suspended_world =
     \<lparr> store = [(ipAssetParams ''10.0.0.1'', Text ''earlier fraud'')], write_fault = None \<rparr>"

definition ip_options :: ValidateStatOptions where
  "ip_options = \<lparr> onFail = None, preCheck = None, assetParams = Some (ipAssetParams ''10.0.0.1'') \<rparr>"

definition resolving_preCheck :: callback where
  "resolving_preCheck w = (Promise (Inr ()), [], w)"

definition example_request :: Request where
  "example_request = \<lparr> remoteUser = None, ip = Some ''10.0.0.1'' \<rparr>"

definition example_order :: order where
  "example_order = \<lparr> guestInfo = None, paymentMethod = None \<rparr>"

text \<open>
  Custom handlers: one that resolves and writes nothing, one that returns \<open>undefined\<close>,
  one whose promise rejects, one that throws before it returns; and a world in which a
  write to the table fails.
\<close>

definition quiet_handler :: "error \<Rightarrow> callback" where
  "quiet_handler error w = (Promise (Inr ()), [], w)"

definition falsy_handler :: "error \<Rightarrow> callback" where
  "falsy_handler error w = (Falsy, [], w)"

definition failing_handler :: "error \<Rightarrow> callback" where
  "failing_handler error w = (Promise (Inl (Error (Text ''handler failed''))), [], w)"

definition throwing_handler :: "error \<Rightarrow> callback" where
  "throwing_handler error w = (Throws (Error (Text ''write failed'')), [], w)"

definition faulty_world :: world where
  "faulty_world = \<lparr> store = [], write_fault = Some (Error (Text ''connection lost'')) \<rparr>"

definition example_message :: message where
  "example_message =
     Colon ''Fraud: IP 10.0.0.1 failed fraud protection''
       (StatAboveTreshold [10, 0.5, 0.5] (limitRule ''1 day'' 5 0.3 0.3))"

definition example_error :: error where
  "example_error =
     ValidationFailed example_message [StrArg ''10.0.0.1'', StrArg ''1 day'']
       [limitRule ''1 day'' 5 0.3 0.3]"

text \<open>
  A guest order paid by card, the same card without a country, and the request of a
  signed-in user.
\<close>

definition example_card :: creditCardInfo where
  "example_card =
     \<lparr> expYear = 2030, expMonth = 3, brand = Some ''visa'', fingerprint = None,
       funding = Some ''credit'', country = Some ''US'' \<rparr>"

definition card_without_country :: creditCardInfo where
  "card_without_country = example_card \<lparr> country := None \<rparr>"




text \<open>A database with one failed card order, made by user 7 from 10.0.0.7.\<close>

definition one_order_database :: database where
  "one_order_database =
     \<lparr> Orders =
         [\<lparr> status = ''ERROR'', CreatedByUserId = Some 7, deletedAt = None, createdAt = 100,
            reqIp = Some ''10.0.0.7'',
            pm = Some \<lparr> pm_type = Some ''creditcard'', pm_name = Some ''4242'',
                       pm_expYear = Some ''2030'', pm_expMonth = Some ''3'',
                       pm_country = Some ''US'' \<rparr>,
            u_email = Some ''seven@example.com'' \<rparr>],
       LIKE = sql_equals, LOWER = map ascii_lower, since = always_since \<rparr>"

section \<open>Properties\<close>

subsection \<open>Unfolding the model on concrete inputs\<close>

lemma Promise_all_Nil [simp]: "Promise_all settle [] = Inr ()"
  by (simp add: Promise_all_def)

lemma Promise_all_isl: "isl (Promise_all settle rs) \<longleftrightarrow> (\<exists>r\<in>set rs. isl r)"
proof -
  let ?P = "\<lambda>i. i < length rs \<and> isl (rs ! i)"
  let ?xs = "settle @ [0..<length rs]"
  show ?thesis
  proof (cases "filter ?P ?xs")
    case Nil
    then have "\<forall>i\<in>set ?xs. \<not> ?P i" by (simp add: filter_empty_conv)
    then have "\<forall>i<length rs. \<not> isl (rs ! i)" by auto
    then have "\<not> (\<exists>r\<in>set rs. isl r)" by (auto simp: in_set_conv_nth)
    with Nil show ?thesis by (simp add: Promise_all_def)
  next
    case (Cons i later)
    then have "i \<in> set (filter ?P ?xs)" by simp
    then have i: "i < length rs" "isl (rs ! i)" by auto
    then have "\<exists>r\<in>set rs. isl r" using nth_mem by blast
    with Cons i show ?thesis by (simp add: Promise_all_def)
  qed
qed

lemma Promise_all_Inl: "Promise_all settle rs = Inl e \<Longrightarrow> \<exists>i<length rs. rs ! i = Inl e"
proof -
  assume a: "Promise_all settle rs = Inl e"
  let ?P = "\<lambda>i. i < length rs \<and> isl (rs ! i)"
  let ?xs = "settle @ [0..<length rs]"
  show ?thesis
  proof (cases "filter ?P ?xs")
    case Nil
    with a show ?thesis by (simp add: Promise_all_def)
  next
    case (Cons i later)
    then have "i \<in> set (filter ?P ?xs)" by simp
    then have i: "i < length rs" by auto
    from a Cons have "rs ! i = Inl e" by (simp add: Promise_all_def)
    with i show ?thesis by blast
  qed
qed

lemma Promise_all_Inr: "\<forall>r\<in>set rs. r = Inr () \<Longrightarrow> Promise_all settle rs = Inr ()"
proof -
  assume "\<forall>r\<in>set rs. r = Inr ()"
  then have "\<not> (\<exists>r\<in>set rs. isl r)" by auto
  then have "\<not> isl (Promise_all settle rs)" by (simp add: Promise_all_isl)
  then show ?thesis by (cases "Promise_all settle rs") auto
qed

lemma Promise_all_single [simp]: "Promise_all settle [r] = r"
proof (cases r)
  case (Inl e)
  then have "isl (Promise_all settle [r])" by (simp add: Promise_all_isl)
  then obtain e' where e': "Promise_all settle [r] = Inl e'"
    by (cases "Promise_all settle [r]") auto
  from Promise_all_Inl [OF this] have "r = Inl e'" by simp
  with e' show ?thesis by simp
next
  case (Inr u)
  then show ?thesis using Promise_all_Inr [of "[r]" settle] by simp
qed

lemmas eval_gate = validateStat_def runPreCheck_def ENFORCE_SUSPENDED_ASSET_def
  assertLimits_def makeStatLimitChecker_def Let_def catchBlock_def runOnFail_def
  SuspendedAsset_create_def assertAssetIsNotSuspended_def isSuspended_def
  fail_def statArray_def limitRule_def

lemmas eval_db = empty_database_def ip_rows_def user_rows_def email_rows_def card_rows_def
  BASE_STATS_QUERY_def sql_div_def NULLIF_def AVG_def COALESCE_def ROUND_def

subsection \<open>The threshold checker\<close>

lemma fail_limitRule:
  "fail s (limitRule interval maxOrders maxErrorRate maxPaymentMethodRate) \<longleftrightarrow>
     maxOrders \<le> numberOfOrders s \<and> maxErrorRate \<le> errorRate s \<and> maxPaymentMethodRate \<le> paymentMethodRate s"
  by (simp add: fail_def limitRule_def statArray_def)

lemma fst_limitRule [simp]: "fst (limitRule interval a b c) = interval"
  by (simp add: limitRule_def)


lemma args_at_0: "args_at args (lp # lps) 0 = args @ [StrArg (fst lp)]"
  by (simp add: args_at_def)

lemma args_at_Suc: "args_at args (lp # lps) (Suc i) = args_at (args @ [StrArg (fst lp)]) lps i"
  by (simp add: args_at_def)

lemma rule_outcome_0:
  "rule_outcome statFn args (lp # lps) 0 = fst (makeStatLimitChecker statFn args lp)"
  by (simp add: rule_outcome_def makeStatLimitChecker_def Let_def args_at_0 split: sum.splits)

lemma rule_outcome_Suc:
  "rule_outcome statFn args (lp # lps) (Suc i) = rule_outcome statFn (args @ [StrArg (fst lp)]) lps i"
  by (simp add: rule_outcome_def args_at_Suc split: sum.splits)

lemma makeStatLimitChecker_snd:
  "snd (makeStatLimitChecker statFn args lp) = (args @ [StrArg (fst lp)], [Query (args @ [StrArg (fst lp)])])"
  by (simp add: makeStatLimitChecker_def Let_def split: sum.splits)

lemma ex_less_Suc_split: "(\<exists>i<Suc n. P i) \<longleftrightarrow> P 0 \<or> (\<exists>i<n. P (Suc i))"
proof
  assume "\<exists>i<Suc n. P i"
  then obtain i where i: "i < Suc n" "P i" by blast
  show "P 0 \<or> (\<exists>i<n. P (Suc i))"
  proof (cases i)
    case 0
    with i show ?thesis by simp
  next
    case (Suc j)
    with i show ?thesis by auto
  qed
next
  assume "P 0 \<or> (\<exists>i<n. P (Suc i))"
  then show "\<exists>i<Suc n. P i" by auto
qed

lemma map_assertLimit_eq:
  "map_assertLimit statFn args rules =
     (map (rule_outcome statFn args rules) [0..<length rules],
      args @ map (\<lambda>r. StrArg (fst r)) rules, queries args rules)"
proof (induction rules arbitrary: args)
  case Nil
  then show ?case by (simp add: queries_def)
next
  case (Cons lp lps)
  have m: "makeStatLimitChecker statFn args lp =
      (rule_outcome statFn args (lp # lps) 0, args @ [StrArg (fst lp)], [Query (args @ [StrArg (fst lp)])])"
    using makeStatLimitChecker_snd [of statFn args lp] rule_outcome_0 [of statFn args lp lps]
    by (cases "makeStatLimitChecker statFn args lp") auto
  show ?case
    by (simp add: m Cons.IH queries_def map_upt_Suc args_at_0 args_at_Suc rule_outcome_Suc
        del: upt_Suc)
qed

lemma assertLimits_eq:
  "assertLimits settle statFn args rules =
     (Promise_all settle (map (rule_outcome statFn args rules) [0..<length rules]),
      args @ map (\<lambda>r. StrArg (fst r)) rules, queries args rules)"
  by (simp add: assertLimits_def map_assertLimit_eq)

lemma assertLimits_snd:
  "snd (assertLimits settle statFn args rules) =
     (args @ map (\<lambda>r. StrArg (fst r)) rules, queries args rules)"
  by (simp add: assertLimits_eq)

lemma assertLimits_Nil: "assertLimits settle statFn args [] = (Inr (), args, [])"
  by (simp add: assertLimits_def)

lemma assertLimits_isl_outcome:
  "isl (fst (assertLimits settle statFn args rules)) \<longleftrightarrow>
     (\<exists>i<length rules. isl (rule_outcome statFn args rules i))"
  by (auto simp: assertLimits_eq Promise_all_isl)

lemma rule_outcome_isl:
  "isl (rule_outcome statFn args rules i) \<longleftrightarrow>
     (case statFn (args_at args rules i) of Inl e \<Rightarrow> True | Inr s \<Rightarrow> fail s (rules ! i))"
  by (simp add: rule_outcome_def split: sum.splits)

lemma assertLimits_isl:
  "isl (fst (assertLimits settle (\<lambda>a. Inr (f a)) args rules)) \<longleftrightarrow>
     (\<exists>i<length rules. fail (f (args_at args rules i)) (rules ! i))"
  by (simp add: assertLimits_isl_outcome rule_outcome_isl)

lemma assertLimits_fst:
  "fst (assertLimits settle statFn args rules) = Inl e \<Longrightarrow>
     \<exists>i<length rules. rule_outcome statFn args rules i = Inl e"
  using Promise_all_Inl [of settle "map (rule_outcome statFn args rules) [0..<length rules]" e]
  by (auto simp: assertLimits_eq)

lemma violated_iff:
  "violated statFn args rules \<longleftrightarrow>
     (\<exists>i<length rules. \<exists>s. statFn (args_at args rules i) = Inr s \<and> fail s (rules ! i))"
proof -
  have "(case statFn (args_at args rules i) of Inl e \<Rightarrow> False | Inr stat \<Rightarrow> fail stat (rules ! i))
          \<longleftrightarrow> (\<exists>s. statFn (args_at args rules i) = Inr s \<and> fail s (rules ! i))" for i
    by (cases "statFn (args_at args rules i)") auto
  then show ?thesis
    by (simp add: violated_def list_ex_iff Bex_def)
qed

lemma violated_returning:
  "violated (\<lambda>a. Inr (f a)) args rules \<longleftrightarrow>
     (\<exists>i<length rules. fail (f (args_at args rules i)) (rules ! i))"
  by (simp add: violated_iff)


subsection \<open>The gate\<close>

lemma runPreCheck_off:
  "\<not> ENFORCE_SUSPENDED_ASSET cfg \<Longrightarrow> runPreCheck cfg options w = (Inr (), [], w)"
  by (simp add: runPreCheck_def)

lemma runPreCheck_default:
  "ENFORCE_SUSPENDED_ASSET cfg \<Longrightarrow> assetParams options = Some a \<Longrightarrow> preCheck options = None \<Longrightarrow>
     runPreCheck cfg options w = assertAssetIsNotSuspended (Some a) w"
  by (simp add: runPreCheck_def split: prod.splits)

lemma runPreCheck_world:
  "preCheck options = None \<Longrightarrow> runPreCheck cfg options w = (r, evs, w1) \<Longrightarrow> w1 = w"
  by (auto simp: runPreCheck_def assertAssetIsNotSuspended_def split: if_splits option.splits)

lemma validateStat_pre_reject:
  "runPreCheck cfg options w = (Inl e, evs, w1) \<Longrightarrow>
     validateStat cfg settle statFn args rules msg options w = (Inl e, evs, w1)"
  by (simp add: validateStat_def)

lemma validateStat_pass:
  "runPreCheck cfg options w = (Inr (), evs, w1) \<Longrightarrow>
   fst (assertLimits settle statFn args rules) = Inr () \<Longrightarrow>
     validateStat cfg settle statFn args rules msg options w = (Inr (), evs @ queries args rules, w1)"
  using assertLimits_snd [of settle statFn args rules]
  by (cases "assertLimits settle statFn args rules") (simp add: validateStat_def)

lemma validateStat_catch:
  "runPreCheck cfg options w = (Inr (), evs, w1) \<Longrightarrow>
   fst (assertLimits settle statFn args rules) = Inl e \<Longrightarrow>
     validateStat cfg settle statFn args rules msg options w =
       (case catchBlock cfg (args @ map (\<lambda>r. StrArg (fst r)) rules) rules msg options e w1 of
          (r, evs2, w2) \<Rightarrow> (r, evs @ queries args rules @ evs2, w2))"
  using assertLimits_snd [of settle statFn args rules]
  by (cases "assertLimits settle statFn args rules") (simp add: validateStat_def)

lemma isSuspended_create:
  "SuspendedAsset_create b m w = (r, evs, w') \<Longrightarrow> isSuspended a w \<Longrightarrow> isSuspended a w'"
  by (auto simp: SuspendedAsset_create_def isSuspended_def split: option.splits if_splits)

lemma validateStat_suspended:
  assumes "ENFORCE_SUSPENDED_ASSET cfg" "assetParams options = Some a" "preCheck options = None"
    "isSuspended a w"
  shows "validateStat cfg settle statFn args rules msg options w =
           (Inl (Error (Text ''Asset is suspended'')), [Lookup (Some a)], w)"
proof -
  have "runPreCheck cfg options w = (Inl (Error (Text ''Asset is suspended'')), [Lookup (Some a)], w)"
    using assms by (simp add: runPreCheck_default assertAssetIsNotSuspended_def)
  then show ?thesis by (rule validateStat_pre_reject)
qed

subsection \<open>The catch block\<close>

lemma runOnFail_default:
  "onFail options = None \<Longrightarrow>
     runOnFail options error w =
       (case SuspendedAsset_create (assetParams options) (message_of error) w of
          (r, evs, w2) \<Rightarrow> (Promise r, evs, w2))"
  by (simp add: runOnFail_def split: prod.splits)

lemma runOnFail_custom:
  "onFail options = Some h \<Longrightarrow> h error w = (Promise r, hevs, w2) \<Longrightarrow>
     runOnFail options error w = (Promise r, hevs, w2)"
  by (simp add: runOnFail_def)

lemma runOnFail_throws:
  "onFail options = Some h \<Longrightarrow> h error w = (Throws thrown, hevs, w2) \<Longrightarrow>
     runOnFail options error w = (Throws thrown, hevs, w2)"
  by (simp add: runOnFail_def)

lemma runOnFail_falsy:
  "onFail options = Some h \<Longrightarrow> h error w = (Falsy, hevs, w2) \<Longrightarrow>
     runOnFail options error w =
       (case SuspendedAsset_create (assetParams options) (message_of error) w2 of
          (r, evs1, w3) \<Rightarrow> (Promise r, hevs @ evs1, w3))"
  by (simp add: runOnFail_def split: prod.splits)

lemma runOnFail_returns:
  assumes "onFail_returns options"
  obtains r hevs w2 where "runOnFail options error w = (Promise r, hevs, w2)"
proof (cases "onFail options")
  case None
  obtain r evs w2 where "SuspendedAsset_create (assetParams options) (message_of error) w = (r, evs, w2)"
    by (cases "SuspendedAsset_create (assetParams options) (message_of error) w") auto
  with None that show thesis by (simp add: runOnFail_default)
next
  case (Some h)
  obtain ret hevs w1 where h: "h error w = (ret, hevs, w1)"
    by (cases "h error w") auto
  from assms Some have nt: "\<not> has_thrown (fst (h error w))"
    by (simp add: onFail_returns_def)
  show thesis
  proof (cases ret)
    case Falsy
    obtain r evs w2 where "SuspendedAsset_create (assetParams options) (message_of error) w1 = (r, evs, w2)"
      by (cases "SuspendedAsset_create (assetParams options) (message_of error) w1") auto
    with Some h Falsy that show thesis by (simp add: runOnFail_falsy)
  next
    case (Promise r)
    with Some h that show thesis by (simp add: runOnFail_custom)
  next
    case (Throws thrown)
    with h nt show thesis by simp
  qed
qed

lemma validateStat_violation:
  assumes "runPreCheck cfg options w = (Inr (), evs, w1)"
    and "fst (assertLimits settle statFn args rules) = Inl e"
    and "runOnFail options
           (ValidationFailed (Colon msg (message_of e)) (args @ map (\<lambda>r. StrArg (fst r)) rules) rules) w1
         = (Promise r, hevs, w2)"
  shows "validateStat cfg settle statFn args rules msg options w =
     (if ENFORCE_SUSPENDED_ASSET cfg
      then Inl (ValidationFailed (Colon msg (message_of e)) (args @ map (\<lambda>r. StrArg (fst r)) rules) rules)
      else Inr (),
      evs @ queries args rules @ [Warn (Colon msg (message_of e))] @ hevs
        @ (case r of Inl write_error \<Rightarrow> [LogError write_error] | Inr u \<Rightarrow> []),
      w2)"
  using assms(3)
  by (simp add: validateStat_catch [OF assms(1,2)] catchBlock_def Let_def)

lemma validateStat_thrown:
  assumes "runPreCheck cfg options w = (Inr (), evs, w1)"
    and "fst (assertLimits settle statFn args rules) = Inl e"
    and "runOnFail options
           (ValidationFailed (Colon msg (message_of e)) (args @ map (\<lambda>r. StrArg (fst r)) rules) rules) w1
         = (Throws thrown, hevs, w2)"
  shows "validateStat cfg settle statFn args rules msg options w =
     (Inl thrown, evs @ queries args rules @ [Warn (Colon msg (message_of e))] @ hevs, w2)"
  using assms(3)
  by (simp add: validateStat_catch [OF assms(1,2)] catchBlock_def Let_def)

lemma validateStat_off_resolves:
  assumes off: "\<not> ENFORCE_SUSPENDED_ASSET cfg" and ret: "onFail_returns options"
  shows "fst (validateStat cfg settle statFn args rules msg options w) = Inr ()"
proof (cases "fst (assertLimits settle statFn args rules)")
  case (Inl e)
  let ?err = "ValidationFailed (Colon msg (message_of e)) (args @ map (\<lambda>r. StrArg (fst r)) rules) rules"
  from ret obtain r hevs w2 where h: "runOnFail options ?err w = (Promise r, hevs, w2)"
    by (rule runOnFail_returns)
  from validateStat_violation [OF runPreCheck_off [OF off] Inl h] off show ?thesis
    by simp
next
  case (Inr u)
  then have "fst (assertLimits settle statFn args rules) = Inr ()" by simp
  from validateStat_pass [OF runPreCheck_off [OF off] this]
  show ?thesis by simp
qed


lemma create_events: "SuspendedAsset_create a m w = (r, evs, w') \<Longrightarrow> evs = [Create a m]"
  by (auto simp: SuspendedAsset_create_def split: option.splits)


lemma create_fault:
  "write_fault w = Some write_error \<Longrightarrow>
     SuspendedAsset_create a m w = (Inl write_error, [Create a m], w)"
  by (simp add: SuspendedAsset_create_def)

lemma create_others:
  "SuspendedAsset_create (Some a) m w = (r, evs, w') \<Longrightarrow> b \<noteq> a \<Longrightarrow> isSuspended b w' = isSuspended b w"
  by (auto simp: SuspendedAsset_create_def isSuspended_def split: option.splits if_splits)

subsection \<open>A gate whose failure handler makes the suspension\<close>

text \<open>
  The options that the four checks pass: no custom \<open>preCheck\<close>, the asset, and a
  failure handler that is, or does the same as, the default \<open>SuspendedAsset.create\<close>.
\<close>

lemma runPreCheck_asset:
  assumes "preCheck options = None" "assetParams options = Some a"
    and "ENFORCE_SUSPENDED_ASSET cfg \<longrightarrow> \<not> isSuspended a w"
  shows "runPreCheck cfg options w =
           (Inr (), if ENFORCE_SUSPENDED_ASSET cfg then [Lookup (Some a)] else [], w)"
  using assms by (simp add: runPreCheck_def assertAssetIsNotSuspended_def)

lemma validateStat_creating:
  assumes np: "preCheck options = None" and ap: "assetParams options = Some a"
    and cr: "\<And>error w. runOnFail options error w =
               (case SuspendedAsset_create (Some a) (message_of error) w of
                  (r, evs, w2) \<Rightarrow> (Promise r, evs, w2))"
    and ok: "ENFORCE_SUSPENDED_ASSET cfg \<longrightarrow> \<not> isSuspended a w"
    and e: "fst (assertLimits settle statFn args rules) = Inl e"
  shows "\<exists>r w2. SuspendedAsset_create (Some a) (Colon msg (message_of e)) w
                  = (r, [Create (Some a) (Colon msg (message_of e))], w2)
          \<and> validateStat cfg settle statFn args rules msg options w =
              (if ENFORCE_SUSPENDED_ASSET cfg
               then Inl (ValidationFailed (Colon msg (message_of e))
                           (args @ map (\<lambda>r. StrArg (fst r)) rules) rules)
               else Inr (),
               (if ENFORCE_SUSPENDED_ASSET cfg then [Lookup (Some a)] else [])
                 @ queries args rules
                 @ [Warn (Colon msg (message_of e)), Create (Some a) (Colon msg (message_of e))]
                 @ (case r of Inl write_error \<Rightarrow> [LogError write_error] | Inr u \<Rightarrow> []),
               w2)"
proof -
  let ?m = "Colon msg (message_of e)"
  let ?err = "ValidationFailed ?m (args @ map (\<lambda>r. StrArg (fst r)) rules) rules"
  obtain r evs w2 where c: "SuspendedAsset_create (Some a) ?m w = (r, evs, w2)"
    by (cases "SuspendedAsset_create (Some a) ?m w") auto
  from create_events [OF c] have evs: "evs = [Create (Some a) ?m]" .
  have h: "runOnFail options ?err w = (Promise r, evs, w2)"
    using c by (simp add: cr)
  from validateStat_violation [OF runPreCheck_asset [OF np ap ok] e h] c evs
  show ?thesis by simp
qed

lemma validateStat_result_depends:
  assumes np: "preCheck options = None" and ap: "assetParams options = Some a"
    and cr: "\<And>error w. runOnFail options error w =
               (case SuspendedAsset_create (Some a) (message_of error) w of
                  (r, evs, w2) \<Rightarrow> (Promise r, evs, w2))"
    and same: "isSuspended a w = isSuspended a w'"
  shows "fst (validateStat cfg settle statFn args rules msg options w)
           = fst (validateStat cfg settle statFn args rules msg options w')"
proof (cases "ENFORCE_SUSPENDED_ASSET cfg \<and> isSuspended a w")
  case True
  with same validateStat_suspended [OF _ ap np, of cfg] show ?thesis by simp
next
  case False
  then have ok: "ENFORCE_SUSPENDED_ASSET cfg \<longrightarrow> \<not> isSuspended a w"
    and ok': "ENFORCE_SUSPENDED_ASSET cfg \<longrightarrow> \<not> isSuspended a w'"
    using same by auto
  show ?thesis
  proof (cases "fst (assertLimits settle statFn args rules)")
    case (Inl e)
    from validateStat_creating [OF np ap cr ok Inl, where msg = msg]
      validateStat_creating [OF np ap cr ok' Inl, where msg = msg]
    show ?thesis by auto
  next
    case (Inr u)
    then have "fst (assertLimits settle statFn args rules) = Inr ()" by simp
    from validateStat_pass [OF runPreCheck_asset [OF np ap ok] this]
      validateStat_pass [OF runPreCheck_asset [OF np ap ok'] this]
    show ?thesis by simp
  qed
qed

lemma validateStat_others:
  assumes np: "preCheck options = None" and ap: "assetParams options = Some a"
    and cr: "\<And>error w. runOnFail options error w =
               (case SuspendedAsset_create (Some a) (message_of error) w of
                  (r, evs, w2) \<Rightarrow> (Promise r, evs, w2))"
    and other: "b \<noteq> a"
  shows "isSuspended b (snd (snd (validateStat cfg settle statFn args rules msg options w)))
           = isSuspended b w"
proof (cases "ENFORCE_SUSPENDED_ASSET cfg \<and> isSuspended a w")
  case True
  with validateStat_suspended [OF _ ap np, of cfg w] show ?thesis by simp
next
  case False
  then have ok: "ENFORCE_SUSPENDED_ASSET cfg \<longrightarrow> \<not> isSuspended a w" by auto
  show ?thesis
  proof (cases "fst (assertLimits settle statFn args rules)")
    case (Inl e)
    from validateStat_creating [OF np ap cr ok Inl, where msg = msg]
    obtain r w2 where c: "SuspendedAsset_create (Some a) (Colon msg (message_of e)) w
                  = (r, [Create (Some a) (Colon msg (message_of e))], w2)"
      and v: "snd (snd (validateStat cfg settle statFn args rules msg options w)) = w2"
      by auto
    from create_others [OF c other] v show ?thesis by simp
  next
    case (Inr u)
    then have "fst (assertLimits settle statFn args rules) = Inr ()" by simp
    from validateStat_pass [OF runPreCheck_asset [OF np ap ok] this]
    show ?thesis by simp
  qed
qed


subsection \<open>The four checks\<close>


lemma runOnFail_builtin:
  "runOnFail \<lparr> onFail = None, preCheck = None, assetParams = Some a \<rparr> error w =
     (case SuspendedAsset_create (Some a) (message_of error) w of
        (r, evs, w2) \<Rightarrow> (Promise r, evs, w2))"
  by (simp add: runOnFail_def split: prod.splits)

text \<open>Every check is the gate, called with such options; or it has no card to read.\<close>

lemma run_check_cases:
  obtains (no_card) "check_asset js c = None"
      "\<And>w. run_check cfg js db tm c w = (Inl (Error (Text ''TypeError'')), [], w)"
  | (gate) a statFn args rules msg options
    where "check_asset js c = Some a" "preCheck options = None" "assetParams options = Some a"
      "\<And>error w. runOnFail options error w =
               (case SuspendedAsset_create (Some a) (message_of error) w of
                  (r, evs, w2) \<Rightarrow> (Promise r, evs, w2))"
      "\<And>w. run_check cfg js db tm c w
             = validateStat cfg (rules_settle tm c) statFn args rules msg options w"
proof (cases c)
  case (CheckIP x)
  show thesis
    by (rule gate [of "ipAssetParams x" "\<lparr> onFail = None, preCheck = None, assetParams = Some (ipAssetParams x) \<rparr>"
          "getIpStats db" "[StrArg x]" "order_ip cfg" "''Fraud: IP '' @ x @ '' failed fraud protection''"])
      (simp_all add: CheckIP checkIP_def runOnFail_builtin)
next
  case (CheckEmail x)
  show thesis
    by (rule gate [of "emailAssetParams js x"
          "\<lparr> onFail = None, preCheck = None, assetParams = Some (emailAssetParams js x) \<rparr>"
          "getEmailStats db" "[StrArg x]" "order_email cfg"
          "''Fraud: email '' @ x @ '' failed fraud protection''"])
      (simp_all add: CheckEmail checkEmail_def runOnFail_builtin)
next
  case (CheckUser u)
  show thesis
    by (rule gate [of "userAssetParams js u"
          "\<lparr> onFail = Some (\<lambda>error w'.
             case SuspendedAsset_create (Some (userAssetParams js u)) (message_of error) w' of
               (r, evs, w'') \<Rightarrow> (Promise r, evs, w'')),
             preCheck = None, assetParams = Some (userAssetParams js u) \<rparr>"
          "getUserStats db" "[UserArg u]" "order_user cfg"
          "''Fraud: User #'' @ toString js (real (user_id u)) @ '' failed fraud protection''"])
      (simp_all add: CheckUser checkUser_def runOnFail_def split: prod.splits)
next
  case (CheckCreditCard p)
  show thesis
  proof (cases "creditCardInfo p")
    case None
    show thesis
      by (rule no_card) (simp_all add: CheckCreditCard None checkCreditCard_def)
  next
    case (Some cc)
    show thesis
      by (rule gate [of "cardAssetParams js (name p) cc"
            "\<lparr> onFail = None, preCheck = None, assetParams = Some (cardAssetParams js (name p) cc) \<rparr>"
            "getCreditCardStats js db" "[CardArg (name p) cc]" "order_card cfg"
            "''Fraud: Credit Card '' @ cardFingerprint js (name p) cc @ '' failed fraud protection''"])
        (simp_all add: CheckCreditCard Some checkCreditCard_def runOnFail_builtin)
  qed
qed

lemma run_check_rejects:
  assumes "ENFORCE_SUSPENDED_ASSET cfg" "check_asset js c = Some a" "isSuspended a w"
  shows "isl (fst (run_check cfg js db tm c w))"
proof (cases rule: run_check_cases [of js c cfg db tm])
  case no_card
  with assms show ?thesis by simp
next
  case (gate b statFn args rules msg options)
  with assms have "b = a" by simp
  with gate assms validateStat_suspended [of cfg options a w] show ?thesis by simp
qed

lemma run_check_depends:
  assumes "\<And>a. check_asset js c = Some a \<Longrightarrow> isSuspended a w = isSuspended a w'"
  shows "fst (run_check cfg js db tm c w) = fst (run_check cfg js db tm c w')"
proof (cases rule: run_check_cases [of js c cfg db tm])
  case no_card
  then show ?thesis by simp
next
  case (gate a statFn args rules msg options)
  from validateStat_result_depends [OF gate(2) gate(3) gate(4) assms [OF gate(1)]] gate(5)
  show ?thesis by simp
qed

lemma run_check_others:
  assumes "check_asset js c \<noteq> Some b"
  shows "isSuspended b (snd (snd (run_check cfg js db tm c w))) = isSuspended b w"
proof (cases rule: run_check_cases [of js c cfg db tm])
  case no_card
  then show ?thesis by simp
next
  case (gate a statFn args rules msg options)
  with assms have "b \<noteq> a" by auto
  from validateStat_others [OF gate(2) gate(3) gate(4) this] gate(5)
  show ?thesis by simp
qed


subsection \<open>The checks of one order do not interfere\<close>


lemma checks_distinct: "distinct (map (check_asset js) (checks req ord))"
  by (auto simp: checks_def ipAssetParams_def cardAssetParams_def userAssetParams_def
      emailAssetParams_def split: option.splits)

lemma run_checks_results:
  assumes "distinct (map (check_asset js) cs)"
    and "\<And>c a. c \<in> set cs \<Longrightarrow> check_asset js c = Some a \<Longrightarrow> isSuspended a w1 = isSuspended a w"
  shows "fst (run_checks cfg js db tm cs w1) = map (\<lambda>c. fst (run_check cfg js db tm c w)) cs"
  using assms
proof (induction cs arbitrary: w1)
  case Nil
  then show ?case by simp
next
  case (Cons c cs)
  obtain r evs w2 where c: "run_check cfg js db tm c w1 = (r, evs, w2)"
    by (cases "run_check cfg js db tm c w1") auto
  have r: "r = fst (run_check cfg js db tm c w)"
    using run_check_depends [of js c w1 w cfg db tm] Cons.prems(2) [of c] c by simp
  have "fst (run_checks cfg js db tm cs w2) = map (\<lambda>c. fst (run_check cfg js db tm c w)) cs"
  proof (rule Cons.IH)
    show "distinct (map (check_asset js) cs)" using Cons.prems(1) by simp
    fix d a
    assume d: "d \<in> set cs" and a: "check_asset js d = Some a"
    then have "check_asset js c \<noteq> Some a" using Cons.prems(1) by force
    from run_check_others [OF this, of cfg db tm w1] c
    have "isSuspended a w2 = isSuspended a w1" by simp
    with Cons.prems(2) [of d a] d a show "isSuspended a w2 = isSuspended a w" by simp
  qed
  then show ?case
    using c r by (cases "run_checks cfg js db tm cs w2") simp
qed

lemma orderFraudProtection_results:
  "fst (run_checks cfg js db tm (checks req ord) w)
     = map (\<lambda>c. fst (run_check cfg js db tm c w)) (checks req ord)"
  by (rule run_checks_results [OF checks_distinct]) simp

lemma orderFraudProtection_isl:
  "isl (fst (orderFraudProtection cfg js db tm req ord w)) \<longleftrightarrow>
     (\<exists>c\<in>set (checks req ord). isl (fst (run_check cfg js db tm c w)))"
proof -
  have "fst (orderFraudProtection cfg js db tm req ord w)
          = Promise_all (checks_settle tm) (fst (run_checks cfg js db tm (checks req ord) w))"
    by (simp add: orderFraudProtection_def split: prod.splits)
  then show ?thesis
    by (simp add: orderFraudProtection_results Promise_all_isl)
qed

lemma orderFraudProtection_suspended:
  "ENFORCE_SUSPENDED_ASSET cfg \<Longrightarrow> c \<in> set (checks req ord) \<Longrightarrow> check_asset js c = Some a \<Longrightarrow>
     isSuspended a w \<Longrightarrow> isl (fst (orderFraudProtection cfg js db tm req ord w))"
  using run_check_rejects [of cfg js c a w db tm]
  by (auto simp: orderFraudProtection_isl)


subsection \<open>The asset that a check looks up\<close>


subsection \<open>Strings and fingerprints\<close>














subsection \<open>The interval that the queries of a check read\<close>

lemma every_query_reads_first_interval:
  assumes "ev \<in> set (queries [subject] rules)"
  shows "query_interval ev = Some (fst (hd rules))"
proof -
  from assms obtain i where i: "i < length rules" and ev: "ev = Query (args_at [subject] rules i)"
    by (auto simp: queries_def)
  from i obtain r rs where "rules = r # rs" by (cases rules) auto
  with ev show ?thesis by (simp add: args_at_def)
qed

subsection \<open>A violation, with and without enforcement\<close>









subsection \<open>The example database\<close>



subsection \<open>The example library functions\<close>





lemma example_toString_42: "toString example_js 42 = ''42''"
  by (simp add: example_js_def) code_simp


subsection \<open>The claims\<close>

text \<open>
  C1. A rule \<open>[interval, maxOrders, maxErrorRate, maxPaymentMethodRate]\<close> is violated
  by statistics \<open>s\<close> exactly when all three limits are met or exceeded at once. The
  \<open>try\<close> block of a check rejects exactly when, for at least one rule of the list, the
  call of the statistics function made for it is rejected or returns statistics that
  violate the rule, in whatever order the promises settle. So when every call returns
  statistics, it rejects exactly when the statistics computed for at least one rule
  violate that rule, and for statistics \<open>s\<close> that do not depend on the rule, exactly
  when \<open>s\<close> violates some rule of the list; with an empty list it never rejects.
\<close>

theorem C1_rule_and_check:
  "(fail s (limitRule interval maxOrders maxErrorRate maxPaymentMethodRate) \<longleftrightarrow>
      maxOrders \<le> numberOfOrders s \<and> maxErrorRate \<le> errorRate s
      \<and> maxPaymentMethodRate \<le> paymentMethodRate s)
   \<and> (isl (fst (assertLimits settle statFn args rules)) \<longleftrightarrow>
        (\<exists>i<length rules. case statFn (args_at args rules i) of
                             Inl e \<Rightarrow> True
                           | Inr stat \<Rightarrow> fail stat (rules ! i)))
   \<and> (isl (fst (assertLimits settle (\<lambda>a. Inr (f a)) args rules)) \<longleftrightarrow>
        (\<exists>i<length rules. fail (f (args_at args rules i)) (rules ! i)))
   \<and> (isl (fst (assertLimits settle (\<lambda>a. Inr s) args rules)) \<longleftrightarrow> (\<exists>r\<in>set rules. fail s r))
   \<and> \<not> isl (fst (assertLimits settle statFn args []))"
proof -
  have "isl (fst (assertLimits settle (\<lambda>a. Inr s) args rules)) \<longleftrightarrow> (\<exists>r\<in>set rules. fail s r)"
    unfolding assertLimits_isl [of settle "\<lambda>a. s" args rules] by (metis in_set_conv_nth)
  moreover have "isl (fst (assertLimits settle statFn args rules)) \<longleftrightarrow>
        (\<exists>i<length rules. case statFn (args_at args rules i) of
                             Inl e \<Rightarrow> True
                           | Inr stat \<Rightarrow> fail stat (rules ! i))"
    by (simp add: assertLimits_isl_outcome rule_outcome_isl)
  ultimately show ?thesis
    using fail_limitRule [of s interval maxOrders maxErrorRate maxPaymentMethodRate]
      assertLimits_isl [of settle f args rules]
    by (simp add: assertLimits_Nil)
qed

theorem C1_witness:
  "fail example_stats (limitRule ''1 day'' 5 0.3 0.3)
   \<and> \<not> fail example_stats (limitRule ''1 day'' 20 0.3 0.3)
   \<and> isl (fst (assertLimits [] (\<lambda>a. Inr example_stats) [StrArg ''10.0.0.1'']
                 [limitRule ''1 day'' 20 0.3 0.3, limitRule ''1 week'' 5 0.3 0.3]))
   \<and> \<not> isl (fst (assertLimits [] (\<lambda>a. Inr example_stats) [StrArg ''10.0.0.1''] []))"
proof -
  have a: "fail example_stats (limitRule ''1 day'' 5 0.3 0.3)"
    using C1_rule_and_check [where s = example_stats and interval = "''1 day''" and maxOrders = 5
        and maxErrorRate = "0.3" and maxPaymentMethodRate = "0.3"]
    by (simp add: example_stats_def)
  have b: "\<not> fail example_stats (limitRule ''1 day'' 20 0.3 0.3)"
    using C1_rule_and_check [where s = example_stats and interval = "''1 day''" and maxOrders = 20
        and maxErrorRate = "0.3" and maxPaymentMethodRate = "0.3"]
    by (simp add: example_stats_def)
  have w: "fail example_stats (limitRule ''1 week'' 5 0.3 0.3)"
    using C1_rule_and_check [where s = example_stats and interval = "''1 week''" and maxOrders = 5
        and maxErrorRate = "0.3" and maxPaymentMethodRate = "0.3"]
    by (simp add: example_stats_def)
  have c: "isl (fst (assertLimits [] (\<lambda>a. Inr example_stats) [StrArg ''10.0.0.1'']
                 [limitRule ''1 day'' 20 0.3 0.3, limitRule ''1 week'' 5 0.3 0.3]))"
    using C1_rule_and_check [where f = "\<lambda>a. example_stats" and args = "[StrArg ''10.0.0.1'']"
        and rules = "[limitRule ''1 day'' 20 0.3 0.3, limitRule ''1 week'' 5 0.3 0.3]"
        and settle = "[]"] w
    by auto
  have d: "\<not> isl (fst (assertLimits [] (\<lambda>a. Inr example_stats) [StrArg ''10.0.0.1''] []))"
    using C1_rule_and_check by blast
  from a b c d show ?thesis by blast
qed

text \<open>
  A check whose statistics query is rejected: no statistics are returned, so no rule
  is violated, and yet the \<open>try\<close> block rejects; the check logs the warning and suspends
  the asset as for a violation.
\<close>

theorem C1_counterexample:
  "rejecting_statFn [StrArg ''10.0.0.1'', StrArg ''1 day''] = Inl (Error (Text ''connection refused''))
   \<and> \<not> violated rejecting_statFn [StrArg ''10.0.0.1''] [limitRule ''1 day'' 5 0.3 0.3]
   \<and> fst (assertLimits [] rejecting_statFn [StrArg ''10.0.0.1''] [limitRule ''1 day'' 5 0.3 0.3])
       = Inl (Error (Text ''connection refused''))
   \<and> validateStat example_config [] rejecting_statFn [StrArg ''10.0.0.1''] [limitRule ''1 day'' 5 0.3 0.3]
        ''Fraud: IP 10.0.0.1 failed fraud protection'' ip_options empty_world
       = (Inr (),
          [Query [StrArg ''10.0.0.1'', StrArg ''1 day''],
           Warn (Colon ''Fraud: IP 10.0.0.1 failed fraud protection'' (Text ''connection refused'')),
           Create (Some (ipAssetParams ''10.0.0.1''))
             (Colon ''Fraud: IP 10.0.0.1 failed fraud protection'' (Text ''connection refused''))],
          \<lparr> store = [(ipAssetParams ''10.0.0.1'',
                       Colon ''Fraud: IP 10.0.0.1 failed fraud protection'' (Text ''connection refused''))],
            write_fault = None \<rparr>)"
  by (simp add: eval_gate violated_def rejecting_statFn_def example_config_def ip_options_def
      empty_world_def ipAssetParams_def)

text \<open>
  C2. The statistics function is called once per rule, but the call for a later rule
  does not get that rule's interval: with the rules \<open>1 month\<close> and \<open>1 week\<close>, the
  second call is made with the arguments \<open>(ip, '1 month', '1 week')\<close>, so that its
  interval parameter is again \<open>1 month\<close>.
\<close>

theorem C2_every_query_gets_the_first_interval:
  "order_ip example_config = [limitRule ''1 month'' 5 0.8 0.2, limitRule ''1 week'' 5 0.8 0.2]
   \<and> fst (snd (checkIP example_config empty_database settle ''10.0.0.1'' empty_world))
       = [Query [StrArg ''10.0.0.1'', StrArg ''1 month''],
          Query [StrArg ''10.0.0.1'', StrArg ''1 month'', StrArg ''1 week'']]
   \<and> map query_interval (fst (snd (checkIP example_config empty_database settle ''10.0.0.1'' empty_world)))
       = [Some ''1 month'', Some ''1 month'']"
proof -
  have "Promise_all settle [Inr (), Inr ()] = Inr ()"
    by (rule Promise_all_Inr) simp
  then show ?thesis
    by (simp add: checkIP_def eval_gate eval_db example_config_def empty_world_def)
qed

text \<open>
  C3. With enforcement enabled, a check that has asset parameters and no custom
  \<open>preCheck\<close>, on an asset that is in the store, rejects at once: the only event is the
  lookup, no statistics are computed, the world is unchanged; and
  \<open>orderFraudProtection\<close> rejects when the asset of one of its checks is in the store.
  A custom \<open>preCheck\<close> that returns a promise takes the place of the lookup: the
  precheck is what that promise is.
\<close>

theorem C3_suspended_asset_short_circuit:
  assumes "ENFORCE_SUSPENDED_ASSET cfg"
  shows "(assetParams options = Some a \<and> preCheck options = None \<and> isSuspended a w \<longrightarrow>
            validateStat cfg settle statFn args rules msg options w
              = (Inl (Error (Text ''Asset is suspended'')), [Lookup (Some a)], w))
       \<and> (c \<in> set (checks req ord) \<and> check_asset js c = Some b \<and> isSuspended b w \<longrightarrow>
            isl (fst (orderFraudProtection cfg js db tm req ord w)))
       \<and> (preCheck options = Some p \<and> p w = (Promise r, pevs, w') \<longrightarrow>
            runPreCheck cfg options w = (r, pevs, w'))"
proof (intro conjI impI)
  assume "assetParams options = Some a \<and> preCheck options = None \<and> isSuspended a w"
  then show "validateStat cfg settle statFn args rules msg options w
              = (Inl (Error (Text ''Asset is suspended'')), [Lookup (Some a)], w)"
    using assms validateStat_suspended [of cfg options a w settle statFn args rules msg]
    by blast
next
  assume "c \<in> set (checks req ord) \<and> check_asset js c = Some b \<and> isSuspended b w"
  then show "isl (fst (orderFraudProtection cfg js db tm req ord w))"
    using assms orderFraudProtection_suspended [of cfg c req ord js b w db tm]
    by blast
next
  assume "preCheck options = Some p \<and> p w = (Promise r, pevs, w')"
  then show "runPreCheck cfg options w = (r, pevs, w')"
    using assms by (simp add: runPreCheck_def)
qed

theorem C3_witness:
  "ENFORCE_SUSPENDED_ASSET enforcing_config
   \<and> isSuspended (ipAssetParams ''10.0.0.1'') suspended_world
   \<and> validateStat enforcing_config [] example_statFn [StrArg ''10.0.0.1''] (order_ip enforcing_config)
        ''Fraud: IP 10.0.0.1 failed fraud protection'' ip_options suspended_world
       = (Inl (Error (Text ''Asset is suspended'')), [Lookup (Some (ipAssetParams ''10.0.0.1''))],
          suspended_world)
   \<and> isl (fst (orderFraudProtection enforcing_config example_js empty_database in_order
                 example_request example_order suspended_world))"
proof -
  have e: "ENFORCE_SUSPENDED_ASSET enforcing_config"
    by (simp add: ENFORCE_SUSPENDED_ASSET_def enforcing_config_def)
  have s: "isSuspended (ipAssetParams ''10.0.0.1'') suspended_world"
    by (simp add: isSuspended_def suspended_world_def)
  have c: "CheckIP ''10.0.0.1'' \<in> set (checks example_request example_order)"
    by (simp add: checks_def example_request_def example_order_def)
  have o: "assetParams ip_options = Some (ipAssetParams ''10.0.0.1'') \<and> preCheck ip_options = None"
    by (simp add: ip_options_def)
  note c3 = C3_suspended_asset_short_circuit [OF e, where options = ip_options
      and a = "ipAssetParams ''10.0.0.1''" and w = suspended_world and settle = "[]"
      and statFn = example_statFn and args = "[StrArg ''10.0.0.1'']"
      and rules = "order_ip enforcing_config"
      and msg = "''Fraud: IP 10.0.0.1 failed fraud protection''" and c = "CheckIP ''10.0.0.1''"
      and req = example_request and ord = example_order and b = "ipAssetParams ''10.0.0.1''"
      and js = example_js and db = empty_database and tm = in_order]
  have v: "validateStat enforcing_config [] example_statFn [StrArg ''10.0.0.1''] (order_ip enforcing_config)
        ''Fraud: IP 10.0.0.1 failed fraud protection'' ip_options suspended_world
       = (Inl (Error (Text ''Asset is suspended'')), [Lookup (Some (ipAssetParams ''10.0.0.1''))],
          suspended_world)"
    by (rule c3 [THEN conjunct1, THEN mp]) (simp add: o s)
  have r: "isl (fst (orderFraudProtection enforcing_config example_js empty_database in_order
                 example_request example_order suspended_world))"
    by (rule c3 [THEN conjunct2, THEN conjunct1, THEN mp]) (simp add: c s)
  show ?thesis by (rule conjI [OF e conjI [OF s conjI [OF v r]]])
qed

text \<open>
  With a custom \<open>preCheck\<close> that resolves, the store is not consulted: the check of a
  suspended asset computes statistics and passes, enforcement enabled.
\<close>

theorem C3_counterexample:
  "ENFORCE_SUSPENDED_ASSET enforcing_config
   \<and> isSuspended (ipAssetParams ''10.0.0.1'') suspended_world
   \<and> assetParams (ip_options \<lparr> preCheck := Some resolving_preCheck \<rparr>) = Some (ipAssetParams ''10.0.0.1'')
   \<and> validateStat enforcing_config [] example_statFn [StrArg ''10.0.0.1''] [limitRule ''1 day'' 20 0.3 0.3]
        ''Fraud: IP 10.0.0.1 failed fraud protection''
        (ip_options \<lparr> preCheck := Some resolving_preCheck \<rparr>) suspended_world
       = (Inr (), [Query [StrArg ''10.0.0.1'', StrArg ''1 day'']], suspended_world)"
  by (simp add: eval_gate enforcing_config_def example_config_def suspended_world_def ip_options_def
      resolving_preCheck_def example_statFn_def example_stats_def ipAssetParams_def)




text \<open>
  C5. A violating check with a custom \<open>onFail\<close> handler that returns a promise: the
  handler is called with the \<open>ValidationFailed\<close> error, in the world as the precheck
  left it (the world the check started in, when there is no custom \<open>preCheck\<close>); the
  check ends in the world the handler left, and its events are the queries, the
  warning, the handler's own events and the log of the handler's rejection, if it
  rejected: no \<open>create\<close> is made by the gate.
\<close>

theorem C5_custom_handler_replaces_default:
  assumes pre: "runPreCheck cfg options w = (Inr (), evs, w1)"
    and viol: "fst (assertLimits settle statFn args rules) = Inl e"
    and custom: "onFail options = Some h"
    and ret: "h (ValidationFailed (Colon msg (message_of e)) (args @ map (\<lambda>r. StrArg (fst r)) rules) rules) w1
                = (Promise r, hevs, w2)"
  shows "validateStat cfg settle statFn args rules msg options w =
           (if ENFORCE_SUSPENDED_ASSET cfg
            then Inl (ValidationFailed (Colon msg (message_of e)) (args @ map (\<lambda>r. StrArg (fst r)) rules) rules)
            else Inr (),
            evs @ queries args rules @ [Warn (Colon msg (message_of e))] @ hevs
              @ (case r of Inl write_error \<Rightarrow> [LogError write_error] | Inr u \<Rightarrow> []),
            w2)
         \<and> (preCheck options = None \<longrightarrow> w1 = w)"
proof (rule conjI)
  show "validateStat cfg settle statFn args rules msg options w =
           (if ENFORCE_SUSPENDED_ASSET cfg
            then Inl (ValidationFailed (Colon msg (message_of e)) (args @ map (\<lambda>r. StrArg (fst r)) rules) rules)
            else Inr (),
            evs @ queries args rules @ [Warn (Colon msg (message_of e))] @ hevs
              @ (case r of Inl write_error \<Rightarrow> [LogError write_error] | Inr u \<Rightarrow> []),
            w2)"
    by (rule validateStat_violation [OF pre viol runOnFail_custom [OF custom ret]])
  show "preCheck options = None \<longrightarrow> w1 = w"
    using runPreCheck_world [OF _ pre] by blast
qed

theorem C5_witness:
  "runPreCheck example_config (ip_options \<lparr> onFail := Some quiet_handler \<rparr>) empty_world
     = (Inr (), [], empty_world)
   \<and> fst (assertLimits [] example_statFn [StrArg ''10.0.0.1''] [limitRule ''1 day'' 5 0.3 0.3])
     = Inl (Error (StatAboveTreshold [10, 0.5, 0.5] (limitRule ''1 day'' 5 0.3 0.3)))
   \<and> quiet_handler example_error empty_world = (Promise (Inr ()), [], empty_world)
   \<and> validateStat example_config [] example_statFn [StrArg ''10.0.0.1''] [limitRule ''1 day'' 5 0.3 0.3]
        ''Fraud: IP 10.0.0.1 failed fraud protection''
        (ip_options \<lparr> onFail := Some quiet_handler \<rparr>) empty_world
       = (Inr (), [Query [StrArg ''10.0.0.1'', StrArg ''1 day''], Warn example_message], empty_world)"
proof -
  have p: "runPreCheck example_config (ip_options \<lparr> onFail := Some quiet_handler \<rparr>) empty_world
     = (Inr (), [], empty_world)"
    by (simp add: runPreCheck_def ENFORCE_SUSPENDED_ASSET_def example_config_def)
  have v: "fst (assertLimits [] example_statFn [StrArg ''10.0.0.1''] [limitRule ''1 day'' 5 0.3 0.3])
     = Inl (Error (StatAboveTreshold [10, 0.5, 0.5] (limitRule ''1 day'' 5 0.3 0.3)))"
    by (simp add: eval_gate example_statFn_def example_stats_def)
  have c: "onFail (ip_options \<lparr> onFail := Some quiet_handler \<rparr>) = Some quiet_handler"
    by simp
  have r: "quiet_handler e empty_world = (Promise (Inr ()), [], empty_world)" for e
    by (simp add: quiet_handler_def)
  have q: "queries [StrArg ''10.0.0.1''] [limitRule ''1 day'' 5 0.3 0.3]
             = [Query [StrArg ''10.0.0.1'', StrArg ''1 day'']]"
    by (simp add: queries_def args_at_def limitRule_def)
  have n: "\<not> ENFORCE_SUSPENDED_ASSET example_config"
    by (simp add: ENFORCE_SUSPENDED_ASSET_def example_config_def)
  from C5_custom_handler_replaces_default [OF p v c r, THEN conjunct1,
       of "''Fraud: IP 10.0.0.1 failed fraud protection''"]
  have "validateStat example_config [] example_statFn [StrArg ''10.0.0.1''] [limitRule ''1 day'' 5 0.3 0.3]
        ''Fraud: IP 10.0.0.1 failed fraud protection''
        (ip_options \<lparr> onFail := Some quiet_handler \<rparr>) empty_world
       = (Inr (), [Query [StrArg ''10.0.0.1'', StrArg ''1 day''], Warn example_message], empty_world)"
    by (simp add: q n example_message_def)
  with p v r show ?thesis by simp
qed

text \<open>
  A custom handler that returns \<open>undefined\<close> and writes nothing: \<open>||\<close> falls through
  to the default, the gate makes the \<open>create\<close>, and the asset is in the store.
\<close>

theorem C5_counterexample:
  "onFail (ip_options \<lparr> onFail := Some falsy_handler \<rparr>) = Some falsy_handler
   \<and> falsy_handler example_error empty_world = (Falsy, [], empty_world)
   \<and> validateStat example_config [] example_statFn [StrArg ''10.0.0.1''] [limitRule ''1 day'' 5 0.3 0.3]
        ''Fraud: IP 10.0.0.1 failed fraud protection''
        (ip_options \<lparr> onFail := Some falsy_handler \<rparr>) empty_world
       = (Inr (),
          [Query [StrArg ''10.0.0.1'', StrArg ''1 day''], Warn example_message,
           Create (Some (ipAssetParams ''10.0.0.1'')) example_message],
          \<lparr> store = [(ipAssetParams ''10.0.0.1'', example_message)], write_fault = None \<rparr>)"
  by (simp add: eval_gate example_config_def example_statFn_def example_stats_def ip_options_def
      empty_world_def example_message_def ipAssetParams_def falsy_handler_def)

text \<open>
  C6. A violating check whose suspension write fails by a rejected promise, be it the
  default \<open>create\<close> hitting a write fault or a custom handler whose promise rejects (or
  the default \<open>create\<close> after a handler that returned a falsy value): the failure is
  logged with \<open>logger.error\<close> as the last event, and the result is the
  \<open>ValidationFailed\<close> error of the violation under enforcement, a normal return
  without it; never the write failure. A custom handler that throws before it returns
  is not caught: nothing more is logged, and the check rejects with what the handler
  threw, whether or not enforcement is enabled.
\<close>

theorem C6_write_failure_is_logged:
  assumes pre: "runPreCheck cfg options w = (Inr (), evs, w1)"
    and viol: "fst (assertLimits settle statFn args rules) = Inl e"
  shows "(onFail options = None \<and> write_fault w1 = Some write_error \<longrightarrow>
            validateStat cfg settle statFn args rules msg options w =
              (if ENFORCE_SUSPENDED_ASSET cfg
               then Inl (ValidationFailed (Colon msg (message_of e))
                           (args @ map (\<lambda>r. StrArg (fst r)) rules) rules)
               else Inr (),
               evs @ queries args rules
                 @ [Warn (Colon msg (message_of e)),
                    Create (assetParams options) (Colon msg (message_of e)),
                    LogError write_error],
               w1))
       \<and> (onFail options = Some h
            \<and> h (ValidationFailed (Colon msg (message_of e)) (args @ map (\<lambda>r. StrArg (fst r)) rules) rules) w1
                = (Promise (Inl write_error), hevs, w2) \<longrightarrow>
            validateStat cfg settle statFn args rules msg options w =
              (if ENFORCE_SUSPENDED_ASSET cfg
               then Inl (ValidationFailed (Colon msg (message_of e))
                           (args @ map (\<lambda>r. StrArg (fst r)) rules) rules)
               else Inr (),
               evs @ queries args rules @ [Warn (Colon msg (message_of e))] @ hevs
                 @ [LogError write_error],
               w2))
       \<and> (onFail options = Some h
            \<and> h (ValidationFailed (Colon msg (message_of e)) (args @ map (\<lambda>r. StrArg (fst r)) rules) rules) w1
                = (Falsy, hevs, w2)
            \<and> write_fault w2 = Some write_error \<longrightarrow>
            validateStat cfg settle statFn args rules msg options w =
              (if ENFORCE_SUSPENDED_ASSET cfg
               then Inl (ValidationFailed (Colon msg (message_of e))
                           (args @ map (\<lambda>r. StrArg (fst r)) rules) rules)
               else Inr (),
               evs @ queries args rules @ [Warn (Colon msg (message_of e))] @ hevs
                 @ [Create (assetParams options) (Colon msg (message_of e)), LogError write_error],
               w2))
       \<and> (onFail options = Some h
            \<and> h (ValidationFailed (Colon msg (message_of e)) (args @ map (\<lambda>r. StrArg (fst r)) rules) rules) w1
                = (Throws thrown, hevs, w2) \<longrightarrow>
            validateStat cfg settle statFn args rules msg options w =
              (Inl thrown, evs @ queries args rules @ [Warn (Colon msg (message_of e))] @ hevs, w2))"
proof (intro conjI impI)
  let ?err = "ValidationFailed (Colon msg (message_of e)) (args @ map (\<lambda>r. StrArg (fst r)) rules) rules"
  {
    assume a: "onFail options = Some h \<and> h ?err w1 = (Throws thrown, hevs, w2)"
    then have "runOnFail options ?err w1 = (Throws thrown, hevs, w2)"
      by (simp add: runOnFail_throws)
    from validateStat_thrown [OF pre viol this]
    show "validateStat cfg settle statFn args rules msg options w =
              (Inl thrown, evs @ queries args rules @ [Warn (Colon msg (message_of e))] @ hevs, w2)"
      by simp
  }
  {
    assume a: "onFail options = None \<and> write_fault w1 = Some write_error"
    then have "runOnFail options ?err w1
        = (Promise (Inl write_error), [Create (assetParams options) (Colon msg (message_of e))], w1)"
      by (simp add: runOnFail_default create_fault)
    from validateStat_violation [OF pre viol this]
    show "validateStat cfg settle statFn args rules msg options w =
              (if ENFORCE_SUSPENDED_ASSET cfg then Inl ?err else Inr (),
               evs @ queries args rules
                 @ [Warn (Colon msg (message_of e)),
                    Create (assetParams options) (Colon msg (message_of e)),
                    LogError write_error],
               w1)"
      by simp
  }
  {
    assume a: "onFail options = Some h \<and> h ?err w1 = (Promise (Inl write_error), hevs, w2)"
    then have "runOnFail options ?err w1 = (Promise (Inl write_error), hevs, w2)"
      by (simp add: runOnFail_custom)
    from validateStat_violation [OF pre viol this]
    show "validateStat cfg settle statFn args rules msg options w =
              (if ENFORCE_SUSPENDED_ASSET cfg then Inl ?err else Inr (),
               evs @ queries args rules @ [Warn (Colon msg (message_of e))] @ hevs
                 @ [LogError write_error],
               w2)"
      by simp
  }
  {
    assume a: "onFail options = Some h \<and> h ?err w1 = (Falsy, hevs, w2) \<and> write_fault w2 = Some write_error"
    then have "runOnFail options ?err w1
        = (Promise (Inl write_error), hevs @ [Create (assetParams options) (Colon msg (message_of e))], w2)"
      by (simp add: runOnFail_falsy create_fault)
    from validateStat_violation [OF pre viol this]
    show "validateStat cfg settle statFn args rules msg options w =
              (if ENFORCE_SUSPENDED_ASSET cfg then Inl ?err else Inr (),
               evs @ queries args rules @ [Warn (Colon msg (message_of e))] @ hevs
                 @ [Create (assetParams options) (Colon msg (message_of e)), LogError write_error],
               w2)"
      by simp
  }
qed

theorem C6_witness:
  "runPreCheck enforcing_config ip_options faulty_world
     = (Inr (), [Lookup (Some (ipAssetParams ''10.0.0.1''))], faulty_world)
   \<and> fst (assertLimits [] example_statFn [StrArg ''10.0.0.1''] [limitRule ''1 day'' 5 0.3 0.3])
     = Inl (Error (StatAboveTreshold [10, 0.5, 0.5] (limitRule ''1 day'' 5 0.3 0.3)))
   \<and> write_fault faulty_world = Some (Error (Text ''connection lost''))
   \<and> validateStat enforcing_config [] example_statFn [StrArg ''10.0.0.1''] [limitRule ''1 day'' 5 0.3 0.3]
        ''Fraud: IP 10.0.0.1 failed fraud protection'' ip_options faulty_world
       = (Inl example_error,
          [Lookup (Some (ipAssetParams ''10.0.0.1'')),
           Query [StrArg ''10.0.0.1'', StrArg ''1 day''], Warn example_message,
           Create (Some (ipAssetParams ''10.0.0.1'')) example_message,
           LogError (Error (Text ''connection lost''))],
          faulty_world)"
proof -
  have p: "runPreCheck enforcing_config ip_options faulty_world
     = (Inr (), [Lookup (Some (ipAssetParams ''10.0.0.1''))], faulty_world)"
    by (simp add: runPreCheck_def ENFORCE_SUSPENDED_ASSET_def enforcing_config_def ip_options_def
        assertAssetIsNotSuspended_def isSuspended_def faulty_world_def)
  have v: "fst (assertLimits [] example_statFn [StrArg ''10.0.0.1''] [limitRule ''1 day'' 5 0.3 0.3])
     = Inl (Error (StatAboveTreshold [10, 0.5, 0.5] (limitRule ''1 day'' 5 0.3 0.3)))"
    by (simp add: eval_gate example_statFn_def example_stats_def)
  have f: "write_fault faulty_world = Some (Error (Text ''connection lost''))"
    by (simp add: faulty_world_def)
  have o: "onFail ip_options = None \<and> assetParams ip_options = Some (ipAssetParams ''10.0.0.1'')"
    by (simp add: ip_options_def)
  have q: "queries [StrArg ''10.0.0.1''] [limitRule ''1 day'' 5 0.3 0.3]
             = [Query [StrArg ''10.0.0.1'', StrArg ''1 day'']]"
    by (simp add: queries_def args_at_def limitRule_def)
  have n: "ENFORCE_SUSPENDED_ASSET enforcing_config"
    by (simp add: ENFORCE_SUSPENDED_ASSET_def enforcing_config_def)
  from C6_write_failure_is_logged [OF p v, THEN conjunct1,
       of "Error (Text ''connection lost'')" "''Fraud: IP 10.0.0.1 failed fraud protection''"] o f
  have "validateStat enforcing_config [] example_statFn [StrArg ''10.0.0.1''] [limitRule ''1 day'' 5 0.3 0.3]
        ''Fraud: IP 10.0.0.1 failed fraud protection'' ip_options faulty_world
       = (Inl example_error,
          [Lookup (Some (ipAssetParams ''10.0.0.1'')),
           Query [StrArg ''10.0.0.1'', StrArg ''1 day''], Warn example_message,
           Create (Some (ipAssetParams ''10.0.0.1'')) example_message,
           LogError (Error (Text ''connection lost''))],
          faulty_world)"
    by (simp add: q n example_message_def example_error_def)
  with p v f show ?thesis by simp
qed

text \<open>The same with a custom handler whose promise rejects, enforcement disabled.\<close>

lemma failing_handler_is_logged:
  "validateStat example_config [] example_statFn [StrArg ''10.0.0.1''] [limitRule ''1 day'' 5 0.3 0.3]
        ''Fraud: IP 10.0.0.1 failed fraud protection''
        (ip_options \<lparr> onFail := Some failing_handler \<rparr>) empty_world
       = (Inr (),
          [Query [StrArg ''10.0.0.1'', StrArg ''1 day''], Warn example_message,
           LogError (Error (Text ''handler failed''))],
          empty_world)"
  by (simp add: eval_gate example_config_def example_statFn_def example_stats_def ip_options_def
      empty_world_def example_message_def ipAssetParams_def failing_handler_def)

text \<open>
  A custom handler whose write fails by throwing before the handler returns: the
  failure is not logged by \<open>logger.error\<close>, and the check rejects with what the
  handler threw, not with the \<open>ValidationFailed\<close> error; enforcement enabled.
\<close>

theorem C6_counterexample:
  "ENFORCE_SUSPENDED_ASSET enforcing_config
   \<and> throwing_handler example_error empty_world = (Throws (Error (Text ''write failed'')), [], empty_world)
   \<and> \<not> is_ValidationFailed (Error (Text ''write failed''))
   \<and> validateStat enforcing_config [] example_statFn [StrArg ''10.0.0.1''] [limitRule ''1 day'' 5 0.3 0.3]
        ''Fraud: IP 10.0.0.1 failed fraud protection''
        (ip_options \<lparr> onFail := Some throwing_handler \<rparr>) empty_world
       = (Inl (Error (Text ''write failed'')),
          [Lookup (Some (ipAssetParams ''10.0.0.1'')),
           Query [StrArg ''10.0.0.1'', StrArg ''1 day''], Warn example_message],
          empty_world)"
  by (simp add: eval_gate enforcing_config_def example_config_def example_statFn_def example_stats_def
      ip_options_def empty_world_def example_message_def ipAssetParams_def throwing_handler_def)





text \<open>
  C9. \<open>BASE_STATS_QUERY\<close> always returns a row: the division by the order count never
  fails, the count being turned into NULL when it is zero and the NULL quotient into 0.
  Over no rows the three statistics are 0; so the entry points for a user, an email and
  an IP address return \<open>errorRate\<close> 0, \<open>numberOfOrders\<close> 0 and \<open>paymentMethodRate\<close> 0
  when no order matches their WHERE clause, and so does the entry point for a card that
  has a \<open>country\<close>. For a card without \<open>country\<close> the call is rejected.
\<close>

theorem C9_no_orders_zero_stats:
  "(\<exists>s. BASE_STATS_QUERY rows = Inr s)
   \<and> sql_div c (NULLIF (length rows) 0)
       = Inr (if rows = [] then None else Some (c / real (length rows)))
   \<and> BASE_STATS_QUERY [] = Inr \<lparr> errorRate = 0, numberOfOrders = 0, paymentMethodRate = 0 \<rparr>
   \<and> (user_rows db user (interval_param rest) = [] \<longrightarrow>
        getUserStats db (UserArg user # rest)
          = Inr \<lparr> errorRate = 0, numberOfOrders = 0, paymentMethodRate = 0 \<rparr>)
   \<and> (email_rows db e (interval_param rest) = [] \<longrightarrow>
        getEmailStats db (StrArg e # rest)
          = Inr \<lparr> errorRate = 0, numberOfOrders = 0, paymentMethodRate = 0 \<rparr>)
   \<and> (ip_rows db a (interval_param rest) = [] \<longrightarrow>
        getIpStats db (StrArg a # rest)
          = Inr \<lparr> errorRate = 0, numberOfOrders = 0, paymentMethodRate = 0 \<rparr>)
   \<and> (country cc = Some card_country
        \<and> card_rows db n (toString js (expYear cc)) (toString js (expMonth cc)) card_country
            (interval_param rest) = [] \<longrightarrow>
        getCreditCardStats js db (CardArg n cc # rest)
          = Inr \<lparr> errorRate = 0, numberOfOrders = 0, paymentMethodRate = 0 \<rparr>)
   \<and> (country cc = None \<longrightarrow> isl (getCreditCardStats js db (CardArg n cc # rest)))"
proof -
  have d: "sql_div x (NULLIF (length rows) 0)
       = Inr (if rows = [] then None else Some (x / real (length rows)))" for x
    by (simp add: sql_div_def NULLIF_def)
  have z: "BASE_STATS_QUERY [] = Inr \<lparr> errorRate = 0, numberOfOrders = 0, paymentMethodRate = 0 \<rparr>"
    by (simp add: BASE_STATS_QUERY_def sql_div_def NULLIF_def AVG_def COALESCE_def ROUND_def)
  have r: "\<exists>s. BASE_STATS_QUERY rows = Inr s"
    by (simp add: BASE_STATS_QUERY_def d)
  from d z r show ?thesis by simp
qed

theorem C9_witness:
  "user_rows one_order_database \<lparr> user_id = 42 \<rparr> (interval_param [StrArg ''1 month'']) = []
   \<and> getUserStats one_order_database [UserArg \<lparr> user_id = 42 \<rparr>, StrArg ''1 month'']
       = Inr \<lparr> errorRate = 0, numberOfOrders = 0, paymentMethodRate = 0 \<rparr>
   \<and> ip_rows empty_database ''10.0.0.1'' (interval_param []) = []
   \<and> getIpStats empty_database [StrArg ''10.0.0.1'']
       = Inr \<lparr> errorRate = 0, numberOfOrders = 0, paymentMethodRate = 0 \<rparr>
   \<and> country example_card = Some ''US''
   \<and> card_rows one_order_database ''Jane Doe'' (toString example_js (expYear example_card))
        (toString example_js (expMonth example_card)) ''US'' (interval_param []) = []
   \<and> getCreditCardStats example_js one_order_database [CardArg ''Jane Doe'' example_card]
       = Inr \<lparr> errorRate = 0, numberOfOrders = 0, paymentMethodRate = 0 \<rparr>"
proof -
  have u: "user_rows one_order_database \<lparr> user_id = 42 \<rparr> (interval_param [StrArg ''1 month'']) = []"
    by (simp add: user_rows_def one_order_database_def)
  have i: "ip_rows empty_database ''10.0.0.1'' (interval_param []) = []"
    by (simp add: ip_rows_def empty_database_def)
  have k: "country example_card = Some ''US''"
    by (simp add: example_card_def)
  have c: "card_rows one_order_database ''Jane Doe'' (toString example_js (expYear example_card))
        (toString example_js (expMonth example_card)) ''US'' (interval_param []) = []"
    by (simp add: card_rows_def one_order_database_def pm_col_def)
  have a: "getUserStats one_order_database [UserArg \<lparr> user_id = 42 \<rparr>, StrArg ''1 month'']
       = Inr \<lparr> errorRate = 0, numberOfOrders = 0, paymentMethodRate = 0 \<rparr>"
    by (rule C9_no_orders_zero_stats [where db = one_order_database and user = "\<lparr> user_id = 42 \<rparr>"
          and rest = "[StrArg ''1 month'']", THEN conjunct2, THEN conjunct2, THEN conjunct2,
          THEN conjunct1, THEN mp, OF u])
  have b: "getIpStats empty_database [StrArg ''10.0.0.1'']
       = Inr \<lparr> errorRate = 0, numberOfOrders = 0, paymentMethodRate = 0 \<rparr>"
    by (rule C9_no_orders_zero_stats [where db = empty_database and a = "''10.0.0.1''" and rest = "[]",
          THEN conjunct2, THEN conjunct2, THEN conjunct2, THEN conjunct2, THEN conjunct2,
          THEN conjunct1, THEN mp, OF i])
  have g: "getCreditCardStats example_js one_order_database [CardArg ''Jane Doe'' example_card]
       = Inr \<lparr> errorRate = 0, numberOfOrders = 0, paymentMethodRate = 0 \<rparr>"
    by (rule C9_no_orders_zero_stats [where db = one_order_database and js = example_js
          and n = "''Jane Doe''" and cc = example_card and card_country = "''US''" and rest = "[]",
          THEN conjunct2, THEN conjunct2, THEN conjunct2, THEN conjunct2, THEN conjunct2,
          THEN conjunct2, THEN conjunct1, THEN mp, OF conjI [OF k c]])
  show ?thesis
    by (rule conjI [OF u conjI [OF a conjI [OF i conjI [OF b conjI [OF k conjI [OF c g]]]]]])
qed

text \<open>
  A card without \<open>country\<close>, as the parameter type of \<open>checkCreditCard\<close> describes it,
  and a database without orders: the call of the card entry point is rejected, no row
  is returned.
\<close>

theorem C9_counterexample:
  "country card_without_country = None
   \<and> Orders empty_database = []
   \<and> getCreditCardStats example_js empty_database [CardArg ''Jane Doe'' card_without_country, StrArg ''1 month'']
       = Inl (Error (Text ''Named parameter :country has no value in the given object.''))"
  by (simp add: card_without_country_def example_card_def empty_database_def)

text \<open>
  C10. Enforcement disabled: the precheck does nothing, for any options, so the store
  is not read before the statistics are computed; \<open>validateStat\<close> resolves whatever
  the store holds, whenever the failure handler returns rather than throws; and when
  the statistics violate no rule, the check makes its queries and nothing else, also
  for an asset that is already in the store.
\<close>

theorem C10_no_precheck_without_enforcement:
  assumes off: "\<not> ENFORCE_SUSPENDED_ASSET cfg"
  shows "runPreCheck cfg options w = (Inr (), [], w)
       \<and> (onFail_returns options \<longrightarrow>
            fst (validateStat cfg settle statFn args rules msg options w) = Inr ())
       \<and> ((\<forall>i<length rules. \<not> fail (f (args_at args rules i)) (rules ! i)) \<longrightarrow>
            validateStat cfg settle (\<lambda>a. Inr (f a)) args rules msg options w
              = (Inr (), queries args rules, w))"
proof (intro conjI impI)
  show "runPreCheck cfg options w = (Inr (), [], w)"
    by (rule runPreCheck_off [OF off])
  show "fst (validateStat cfg settle statFn args rules msg options w) = Inr ()"
    if "onFail_returns options"
    by (rule validateStat_off_resolves [OF off that])
  assume "\<forall>i<length rules. \<not> fail (f (args_at args rules i)) (rules ! i)"
  then have "\<not> isl (fst (assertLimits settle (\<lambda>a. Inr (f a)) args rules))"
    by (simp add: assertLimits_isl)
  then have "fst (assertLimits settle (\<lambda>a. Inr (f a)) args rules) = Inr ()"
    by (cases "fst (assertLimits settle (\<lambda>a. Inr (f a)) args rules)") auto
  from validateStat_pass [OF runPreCheck_off [OF off] this]
  show "validateStat cfg settle (\<lambda>a. Inr (f a)) args rules msg options w = (Inr (), queries args rules, w)"
    by simp
qed

theorem C10_witness:
  "\<not> ENFORCE_SUSPENDED_ASSET example_config
   \<and> isSuspended (ipAssetParams ''10.0.0.1'') suspended_world
   \<and> assetParams ip_options = Some (ipAssetParams ''10.0.0.1'')
   \<and> onFail_returns ip_options
   \<and> \<not> fail example_stats (limitRule ''1 day'' 20 0.3 0.3)
   \<and> runPreCheck example_config ip_options suspended_world = (Inr (), [], suspended_world)
   \<and> validateStat example_config [] (\<lambda>a. Inr example_stats) [StrArg ''10.0.0.1'']
        [limitRule ''1 day'' 20 0.3 0.3] ''Fraud: IP 10.0.0.1 failed fraud protection''
        ip_options suspended_world
       = (Inr (), [Query [StrArg ''10.0.0.1'', StrArg ''1 day'']], suspended_world)"
proof -
  have n: "\<not> ENFORCE_SUSPENDED_ASSET example_config"
    by (simp add: ENFORCE_SUSPENDED_ASSET_def example_config_def)
  have s: "isSuspended (ipAssetParams ''10.0.0.1'') suspended_world"
    by (simp add: isSuspended_def suspended_world_def)
  have o: "assetParams ip_options = Some (ipAssetParams ''10.0.0.1'')"
    by (simp add: ip_options_def)
  have r: "onFail_returns ip_options"
    by (simp add: onFail_returns_def ip_options_def)
  have f: "\<not> fail example_stats (limitRule ''1 day'' 20 0.3 0.3)"
    by (simp add: fail_limitRule example_stats_def)
  have q: "queries [StrArg ''10.0.0.1''] [limitRule ''1 day'' 20 0.3 0.3]
             = [Query [StrArg ''10.0.0.1'', StrArg ''1 day'']]"
    by (simp add: queries_def args_at_def limitRule_def)
  note c10 = C10_no_precheck_without_enforcement [OF n, where options = ip_options
      and w = suspended_world and settle = "[]" and rules = "[limitRule ''1 day'' 20 0.3 0.3]"
      and f = "\<lambda>a. example_stats" and args = "[StrArg ''10.0.0.1'']"
      and msg = "''Fraud: IP 10.0.0.1 failed fraud protection''"]
  have p: "runPreCheck example_config ip_options suspended_world = (Inr (), [], suspended_world)"
    by (rule c10 [THEN conjunct1])
  have "\<forall>i<length [limitRule ''1 day'' 20 0.3 0.3].
          \<not> fail ((\<lambda>a. example_stats) (args_at [StrArg ''10.0.0.1''] [limitRule ''1 day'' 20 0.3 0.3] i))
                ([limitRule ''1 day'' 20 0.3 0.3] ! i)"
    using f by simp
  then have v: "validateStat example_config [] (\<lambda>a. Inr example_stats) [StrArg ''10.0.0.1'']
        [limitRule ''1 day'' 20 0.3 0.3] ''Fraud: IP 10.0.0.1 failed fraud protection''
        ip_options suspended_world
       = (Inr (), [Query [StrArg ''10.0.0.1'', StrArg ''1 day'']], suspended_world)"
    using c10 [THEN conjunct2, THEN conjunct2, THEN mp]
    by (simp only: q)
  show ?thesis
    by (rule conjI [OF n conjI [OF s conjI [OF o conjI [OF r conjI [OF f conjI [OF p v]]]]]])
qed

end
